theory Spec2Isabelle
  imports Main "HOL-Library.AList" "HOL-Library.Char_ord" "HOL-Library.List_Lexorder"
    "HOL-Library.Multiset"
begin

section \<open>Python values, dictionaries and exceptions\<close>

text \<open>
  The values that \<^verbatim>\<open>syslogdiag/log.py\<close> stores in attribute dictionaries and in
  stored documents. A dictionary is an association list in insertion order: lookup is
  \<open>map_of\<close>, item assignment is \<open>AList.update\<close>, \<open>pop\<close> is a lookup followed by
  \<open>AList.delete\<close>. Two dictionaries are equal in Python when they hold the same items
  in any order, that is when their \<open>map_of\<close> agree. \<open>PDict\<close> is a dictionary held by
  value (as in a stored document); \<open>PRef\<close> is a reference to a dictionary object of
  the heap below, for a dictionary that the program builds and stores in another one.
\<close>

datatype pyval =
    PNone
  | PInt int
  | PStr string
  | PObjectId nat
  | PDict "(string \<times> pyval) list"
  | PRef nat

type_synonym pydict = "(string \<times> pyval) list"

datatype pyerror =
    KeyError string
  | TypeError
  | PyException pyval

definition pop :: "string \<Rightarrow> pydict \<Rightarrow> pyerror + (pyval \<times> pydict)" where
  "pop k d = (case map_of d k of
                None \<Rightarrow> Inl (KeyError k)
              | Some v \<Rightarrow> Inr (v, AList.delete k d))"

section \<open>The console sink: \<open>logtoscreen.log_handle_caller\<close>\<close>

text \<open>
  \<open>print(text)\<close> appends the text to the console; \<open>raise Exception(text)\<close> is the
  second component of the result. The log level is the string kept in \<open>_log_level\<close>.
\<close>

definition logtoscreen_log_handle_caller ::
  "string \<Rightarrow> int \<Rightarrow> pyval \<Rightarrow> pyval list \<Rightarrow> pyval list \<times> pyerror option" where
  "logtoscreen_log_handle_caller log_level msglevel text console =
     (let c1 = (if msglevel = 0 then
                  (if log_level = ''on'' then console @ [text] else console)
                else if msglevel = 1 then
                  (if log_level \<in> set [''on'', ''terse''] then console @ [text] else console)
                else console @ [text]);
          c2 = (if msglevel = 2 then c1 @ [text] else c1);
          c3 = (if msglevel = 3 then c2 @ [text] else c2)
      in if msglevel = 4 then (c3, Some (PyException text)) else (c3, None))"

section \<open>Logger objects and their attribute dictionaries\<close>

text \<open>
  Loggers and dictionaries are Python objects: two loggers may hold the same dictionary
  object, and a mutation through one name is seen through the other. The heap keeps the
  dictionary objects and the logger objects by address (the index in the list); a new
  object takes the next free address. A logger holds the address of its \<open>attributes\<close>
  dictionary and its \<open>_log_level\<close> (absent until \<open>set_logging_level\<close> has run).

  \<open>**kwargs\<close> is a dictionary that Python builds afresh for each call and that the
  methods below only read, so it is passed by value.
\<close>

record logger_obj =
  attributes :: nat
  log_level_attr :: "string option"

record heap =
  dicts :: "pydict list"
  loggers :: "logger_obj list"

definition new_dict :: "pydict \<Rightarrow> heap \<Rightarrow> nat \<times> heap" where
  "new_dict d h = (length (dicts h), h\<lparr>dicts := dicts h @ [d]\<rparr>)"

definition setitem :: "nat \<Rightarrow> string \<Rightarrow> pyval \<Rightarrow> heap \<Rightarrow> heap" where
  "setitem a k v h = h\<lparr>dicts := (dicts h)[a := AList.update k v (dicts h ! a)]\<rparr>"

text \<open>
  The loop of \<open>get_update_attributes_list\<close>: \<open>joined_attributes[keyname] =
  new_attributes[keyname]\<close> for each key of \<open>new_attributes\<close>. The lookup cannot miss,
  since \<open>keyname\<close> is one of the dictionary's own keys.
\<close>

fun update_attributes_loop :: "nat \<Rightarrow> pydict \<Rightarrow> string list \<Rightarrow> heap \<Rightarrow> heap" where
  "update_attributes_loop joined_attributes new_attributes [] h = h"
| "update_attributes_loop joined_attributes new_attributes (keyname # keys) h =
     (case map_of new_attributes keyname of
        Some v \<Rightarrow> update_attributes_loop joined_attributes new_attributes keys
                    (setitem joined_attributes keyname v h)
      | None \<Rightarrow> h)"

definition get_update_attributes_list :: "nat \<Rightarrow> pydict \<Rightarrow> heap \<Rightarrow> nat \<times> heap" where
  "get_update_attributes_list parent_attributes new_attributes h =
     (let (joined_attributes, h1) = new_dict (dicts h ! parent_attributes) h
      in (joined_attributes,
          update_attributes_loop joined_attributes new_attributes (map fst new_attributes) h1))"

definition set_attributes :: "nat \<Rightarrow> nat \<Rightarrow> heap \<Rightarrow> heap" where
  "set_attributes self a h = h\<lparr>loggers := (loggers h)[self := (loggers h ! self)\<lparr>attributes := a\<rparr>]\<rparr>"

definition set_log_level :: "nat \<Rightarrow> string \<Rightarrow> heap \<Rightarrow> heap" where
  "set_log_level self l h =
     h\<lparr>loggers := (loggers h)[self := (loggers h ! self)\<lparr>log_level_attr := Some l\<rparr>]\<rparr>"

definition logging_level :: "nat \<Rightarrow> heap \<Rightarrow> string" where
  "logging_level self h = (case log_level_attr (loggers h ! self) of None \<Rightarrow> ''Off'' | Some l \<Rightarrow> l)"

text \<open>\<open>str.lower\<close> on the ASCII letters.\<close>

definition lower_char :: "char \<Rightarrow> char" where
  "lower_char c = (if CHR ''A'' \<le> c \<and> c \<le> CHR ''Z'' then char_of (of_char c + (32::nat)) else c)"

definition lower :: "string \<Rightarrow> string" where
  "lower s = map lower_char s"

definition allowed_levels :: "string list" where
  "allowed_levels = [''off'', ''terse'', ''on'']"

definition set_logging_level :: "nat \<Rightarrow> string \<Rightarrow> heap \<Rightarrow> pyerror + heap" where
  "set_logging_level self new_level h =
     (let new_level = lower new_level
      in if new_level \<notin> set allowed_levels
         then Inl (PyException (PStr (''You can'' @ [CHR 0x27] @ ''t log with level %s'')))
         else Inr (set_log_level self new_level h))"

text \<open>
  The first argument of \<open>logger.__init__\<close>: a \<open>str\<close>, an object with an \<open>attributes\<close>
  attribute (a logger, by address), or anything else. \<open>log_level\<close> is \<open>None\<close> when the
  caller leaves it out, and the default \<open>"Off"\<close> is used. The object under construction
  is the next free logger address; when \<open>__init__\<close> raises, the caller gets no object.
\<close>

datatype init_type = TypeStr string | TypeLogger nat | TypeOther

definition logger_init ::
  "init_type \<Rightarrow> string option \<Rightarrow> pydict \<Rightarrow> heap \<Rightarrow> pyerror + (nat \<times> heap)" where
  "logger_init type log_level kwargs h =
     (let self = length (loggers h);
          log_level = (case log_level of None \<Rightarrow> ''Off'' | Some l \<Rightarrow> l)
      in case (case type of
                 TypeStr s \<Rightarrow>
                   (let (log_attributes, h1) = new_dict [(''type'', PStr s)] h
                    in Inr (get_update_attributes_list log_attributes kwargs h1))
               | TypeLogger parent \<Rightarrow>
                   (let parent_attributes = attributes (loggers h ! parent)
                    in Inr (get_update_attributes_list parent_attributes kwargs h))
               | TypeOther \<Rightarrow>
                   Inl (PyException
                     (PStr ''Can only create a logger from another logger, or a str identifier''))) of
           Inl e \<Rightarrow> Inl e
         | Inr (log_attributes, h2) \<Rightarrow>
             (let h3 = h2\<lparr>loggers := loggers h2 @
                          [\<lparr>attributes = log_attributes, log_level_attr = None\<rparr>]\<rparr>
              in case set_logging_level self log_level h3 of
                   Inl e \<Rightarrow> Inl e
                 | Inr h4 \<Rightarrow> Inr (self, h4)))"

text \<open>\<open>logger.setup\<close>: \<open>copy(self)\<close> is a new logger object with the same fields.\<close>

definition logger_setup :: "nat \<Rightarrow> pydict \<Rightarrow> heap \<Rightarrow> nat \<times> heap" where
  "logger_setup self kwargs h =
     (let new_log = length (loggers h);
          h1 = h\<lparr>loggers := loggers h @ [loggers h ! self]\<rparr>;
          log_attributes = attributes (loggers h1 ! new_log);
          (new_attributes, h2) = get_update_attributes_list log_attributes kwargs h1;
          h3 = set_attributes new_log new_attributes h2;
          h4 = set_log_level new_log (logging_level self h3) h3
      in (new_log, h4))"

text \<open>\<open>logger.label\<close>: the one operation that changes a logger in place.\<close>

definition logger_label :: "nat \<Rightarrow> pydict \<Rightarrow> heap \<Rightarrow> heap" where
  "logger_label self kwargs h =
     (let log_attributes = attributes (loggers h ! self);
          (new_attributes, h1) = get_update_attributes_list log_attributes kwargs h
      in set_attributes self new_attributes h1)"

text \<open>
  A program's use of loggers is a sequence of public operations on loggers that exist.
  An operation that names a logger address not yet allocated is no Python program
  (\<open>None\<close>); a constructor that raises leaves the caller without a new object, and the
  dictionaries it had built are unreachable.
\<close>

datatype logger_op =
    Construct init_type "string option" pydict
  | Setup nat pydict
  | Label nat pydict
  | SetLoggingLevel nat string

fun apply_op :: "logger_op \<Rightarrow> heap \<Rightarrow> heap option" where
  "apply_op (Construct type log_level kwargs) h =
     (if (case type of TypeLogger parent \<Rightarrow> parent < length (loggers h) | _ \<Rightarrow> True)
      then Some (case logger_init type log_level kwargs h of Inl e \<Rightarrow> h | Inr (new_log, h') \<Rightarrow> h')
      else None)"
| "apply_op (Setup self kwargs) h =
     (if self < length (loggers h) then Some (snd (logger_setup self kwargs h)) else None)"
| "apply_op (Label self kwargs) h =
     (if self < length (loggers h) then Some (logger_label self kwargs h) else None)"
| "apply_op (SetLoggingLevel self new_level) h =
     (if self < length (loggers h)
      then Some (case set_logging_level self new_level h of Inl e \<Rightarrow> h | Inr h' \<Rightarrow> h')
      else None)"

fun run_ops :: "logger_op list \<Rightarrow> heap \<Rightarrow> heap option" where
  "run_ops [] h = Some h"
| "run_ops (op # ops) h = (case apply_op op h of None \<Rightarrow> None | Some h' \<Rightarrow> run_ops ops h')"

text \<open>
  No two loggers hold the same dictionary object, and every logger's dictionary exists.
\<close>

definition no_alias :: "heap \<Rightarrow> bool" where
  "no_alias h = (distinct (map attributes (loggers h))
                 \<and> list_all (\<lambda>l. attributes l < length (dicts h)) (loggers h))"

text \<open>The attributes seen through a logger.\<close>

definition attributes_of :: "heap \<Rightarrow> nat \<Rightarrow> pydict" where
  "attributes_of h self = dicts h ! attributes (loggers h ! self)"

text \<open>Example heaps: the loggers of the doctest of \<open>logger.__init__\<close>.\<close>

definition empty_heap :: heap where
  "empty_heap = \<lparr>dicts = [], loggers = []\<rparr>"

definition base_on_heap :: heap where
  "base_on_heap =
     \<lparr>dicts = [[(''type'', PStr ''base_system'')], [(''type'', PStr ''base_system'')]],
      loggers = [\<lparr>attributes = 1, log_level_attr = Some ''on''\<rparr>]\<rparr>"

definition derived_heap :: heap where
  "derived_heap =
     \<lparr>dicts = [[(''type'', PStr ''base_system'')], [(''type'', PStr ''base_system'')],
               [(''type'', PStr ''base_system''), (''stage'', PStr ''x'')]],
      loggers = [\<lparr>attributes = 1, log_level_attr = Some ''on''\<rparr>,
                 \<lparr>attributes = 2, log_level_attr = Some ''off''\<rparr>]\<rparr>"

definition doctest_ops :: "logger_op list" where
  "doctest_ops =
     [Construct (TypeStr ''another_system'') None [(''stage'', PStr ''test'')],
      Construct (TypeLogger 0) (Some ''on'') [(''stage'', PStr ''combForecast'')],
      Setup 1 [(''stage'', PStr ''test2'')],
      Label 2 [(''instrument_code'', PStr ''EDOLLAR'')]]"

definition doctest_heap :: heap where
  "doctest_heap =
     \<lparr>dicts =
        [[(''type'', PStr ''another_system'')],
         [(''type'', PStr ''another_system''), (''stage'', PStr ''test'')],
         [(''type'', PStr ''another_system''), (''stage'', PStr ''combForecast'')],
         [(''type'', PStr ''another_system''), (''stage'', PStr ''test2'')],
         [(''type'', PStr ''another_system''), (''stage'', PStr ''test2''),
          (''instrument_code'', PStr ''EDOLLAR'')]],
      loggers =
        [\<lparr>attributes = 1, log_level_attr = Some ''off''\<rparr>,
         \<lparr>attributes = 2, log_level_attr = Some ''on''\<rparr>,
         \<lparr>attributes = 4, log_level_attr = Some ''on''\<rparr>]\<rparr>"

section \<open>Log entries\<close>

definition MSG_LEVEL_DICT :: "(string \<times> string) list" where
  "MSG_LEVEL_DICT = [(''m0'', []), (''m1'', []), (''m2'', ''[Warning]''),
                     (''m3'', ''[Error]''), (''m4'', ''*CRITICAL*'')]"

definition LEVEL_ID :: string where "LEVEL_ID = ''_Level''"
definition TIMESTAMP_ID :: string where "TIMESTAMP_ID = ''_Timestamp''"
definition TEXT_ID :: string where "TEXT_ID = ''_Text''"
definition LOG_RECORD_ID :: string where "LOG_RECORD_ID = ''_Log_Record_id''"

text \<open>
  Modelled from the spec: the store's own object-identity field of sections 3 and 6.
  \<open>MONGO_ID_KEY\<close> is imported from \<open>sysdata.mongodb.mongo_connection\<close>, which is not
  among the source files; MongoDB's name for the field is used.
\<close>

definition MONGO_ID_KEY :: string where "MONGO_ID_KEY = ''_id''"

text \<open>\<open>"%d" % n\<close>: the decimal digits of an integer.\<close>

fun string_of_nat :: "nat \<Rightarrow> string" where
  "string_of_nat n =
     (if n < 10 then [char_of (48 + n)]
      else string_of_nat (n div 10) @ [char_of (48 + n mod 10)])"

definition format_d :: "int \<Rightarrow> string" where
  "format_d i = (if i < 0 then ''-'' @ string_of_nat (nat (- i)) else string_of_nat (nat i))"

text \<open>
  A \<open>datetime\<close> is a count of microseconds (the resolution of Python's naive datetimes);
  \<open>timedelta(days=d)\<close> is \<open>d\<close> times the microseconds of a day. The conversions
  \<open>datetime_to_long\<close> and \<open>long_to_datetime\<close> come from \<open>syscore.dateutils\<close>, which is
  not among the source files: they are parameters. \<open>long_to_datetime\<close> is applied to
  whatever value a stored document holds, so it takes a value and may raise.
\<close>

record dateutils =
  datetime_to_long :: "int \<Rightarrow> int"
  long_to_datetime :: "pyval \<Rightarrow> pyerror + int"

definition timedelta_days :: "int \<Rightarrow> int" where
  "timedelta_days d = d * 86400000000"

text \<open>
  The fields of a \<open>logEntry\<close> object: \<open>_log_dict\<close>, \<open>_use_attributes\<close>, \<open>_text\<close>,
  \<open>_msglevel\<close>, \<open>_msglevel_text\<close>, \<open>_timestamp_as_long\<close>, \<open>_timestamp\<close>, \<open>_log_id\<close>.
\<close>

record logEntry =
  entry_log_dict :: pydict
  entry_use_attributes :: pydict
  entry_text :: pyval
  entry_msglevel :: pyval
  entry_msglevel_text :: string
  entry_timestamp_as_long :: int
  entry_timestamp :: int
  entry_log_id :: pyval

text \<open>
  \<open>logEntry.__init__\<close>. \<open>now\<close> is what \<open>datetime.datetime.now()\<close> returns at the call; it
  is read only when \<open>log_timestamp\<close> is \<open>None\<close>. \<open>"m%d" % msglevel\<close> raises \<open>TypeError\<close>
  for a value that is not a number, and the lookup in \<open>MSG_LEVEL_DICT\<close> raises
  \<open>KeyError\<close> for a number outside 0..4.
\<close>

definition logEntry_init ::
  "dateutils \<Rightarrow> int \<Rightarrow> pyval \<Rightarrow> int option \<Rightarrow> pyval \<Rightarrow> pydict \<Rightarrow> pyval \<Rightarrow> pyerror + logEntry" where
  "logEntry_init du now text log_timestamp msglevel input_attributes log_id =
     (let use_attributes = input_attributes;
          log_dict = use_attributes
      in case (case msglevel of
                 PInt n \<Rightarrow> (case map_of MSG_LEVEL_DICT (''m'' @ format_d n) of
                              None \<Rightarrow> Inl (KeyError (''m'' @ format_d n))
                            | Some t \<Rightarrow> Inr t)
               | _ \<Rightarrow> Inl TypeError) of
           Inl e \<Rightarrow> Inl e
         | Inr msg_level_text \<Rightarrow>
             (let log_timestamp = (case log_timestamp of None \<Rightarrow> now | Some t \<Rightarrow> t);
                  log_timestamp_aslong = datetime_to_long du log_timestamp;
                  log_dict = AList.update LEVEL_ID msglevel log_dict;
                  log_dict = AList.update TIMESTAMP_ID (PInt log_timestamp_aslong) log_dict;
                  log_dict = AList.update TEXT_ID text log_dict;
                  log_dict = AList.update LOG_RECORD_ID log_id log_dict
              in Inr \<lparr>entry_log_dict = log_dict,
                      entry_use_attributes = use_attributes,
                      entry_text = text,
                      entry_msglevel = msglevel,
                      entry_msglevel_text = msg_level_text,
                      entry_timestamp_as_long = log_timestamp_aslong,
                      entry_timestamp = log_timestamp,
                      entry_log_id = log_id\<rparr>))"

text \<open>\<open>logEntry.log_entry_from_dict\<close>: five \<open>pop\<close>s without a default, in this order.\<close>

definition log_entry_from_dict :: "dateutils \<Rightarrow> int \<Rightarrow> pydict \<Rightarrow> pyerror + logEntry" where
  "log_entry_from_dict du now log_dict_input =
     (let log_dict = log_dict_input
      in case pop MONGO_ID_KEY log_dict of Inl e \<Rightarrow> Inl e | Inr (mongo_id, log_dict) \<Rightarrow>
         case pop TIMESTAMP_ID log_dict of Inl e \<Rightarrow> Inl e | Inr (log_timestamp_aslong, log_dict) \<Rightarrow>
         case pop LEVEL_ID log_dict of Inl e \<Rightarrow> Inl e | Inr (msg_level, log_dict) \<Rightarrow>
         case pop TEXT_ID log_dict of Inl e \<Rightarrow> Inl e | Inr (text, log_dict) \<Rightarrow>
         case pop LOG_RECORD_ID log_dict of Inl e \<Rightarrow> Inl e | Inr (log_id, log_dict) \<Rightarrow>
           (let input_attributes = log_dict
            in case long_to_datetime du log_timestamp_aslong of
                 Inl e \<Rightarrow> Inl e
               | Inr log_timestamp \<Rightarrow>
                   logEntry_init du now text (Some log_timestamp) msg_level input_attributes log_id))"

definition log_dict :: "logEntry \<Rightarrow> pydict" where
  "log_dict e = entry_log_dict e"

text \<open>
  An encoding of datetimes used to run the definitions on examples: the long form of a
  datetime is its count of microseconds, and anything but an integer is refused.
\<close>

definition plain_dateutils :: dateutils where
  "plain_dateutils =
     \<lparr>datetime_to_long = (\<lambda>t. t),
      long_to_datetime = (\<lambda>v. case v of PInt n \<Rightarrow> Inr n | _ \<Rightarrow> Inl TypeError)\<rparr>"

text \<open>
  An example entry: \<open>logEntry("disk full", log_timestamp=1000, msglevel=3,
  input_attributes={"type": "sys"}, log_id=5)\<close>, and its dictionary as a store hands it
  back, with the store's identity field added.
\<close>

definition example_entry :: logEntry where
  "example_entry =
     \<lparr>entry_log_dict =
        [(''type'', PStr ''sys''), (''_Level'', PInt 3), (''_Timestamp'', PInt 1000),
         (''_Text'', PStr ''disk full''), (''_Log_Record_id'', PInt 5)],
      entry_use_attributes = [(''type'', PStr ''sys'')],
      entry_text = PStr ''disk full'',
      entry_msglevel = PInt 3,
      entry_msglevel_text = ''[Error]'',
      entry_timestamp_as_long = 1000,
      entry_timestamp = 1000,
      entry_log_id = PInt 5\<rparr>"

definition stored_example :: pydict where
  "stored_example = AList.update MONGO_ID_KEY (PObjectId 0) (log_dict example_entry)"

section \<open>The durable collection\<close>

text \<open>
  Modelled from the spec: the collection interface of section 6 (\<open>insertOne\<close>,
  \<open>findOne\<close>, \<open>find\<close>, \<open>replaceOneUpsert\<close>), which the code reaches through
  \<open>mongoConnection\<close> (\<open>sysdata.mongodb.mongo_connection\<close>, not among the source files).
  A collection is the list of its documents in insertion order and the next identity
  the store will assign. A filter is a dictionary: a field mapped to
  \<open>{"$gt": n}\<close> or \<open>{"$lt": n}\<close> selects the documents whose field is an integer
  strictly above (below) \<open>n\<close>; a field mapped to any other value selects the documents
  whose field equals it; all fields of the filter must hold (section 1: equality filter
  plus time range).
\<close>

record collection =
  docs :: "pydict list"
  next_oid :: nat

fun matches_cond :: "pyval option \<Rightarrow> pyval \<Rightarrow> bool" where
  "matches_cond v (PDict [(opr, PInt n)]) =
     (if opr = ''$gt'' then (case v of Some (PInt x) \<Rightarrow> n < x | _ \<Rightarrow> False)
      else if opr = ''$lt'' then (case v of Some (PInt x) \<Rightarrow> x < n | _ \<Rightarrow> False)
      else v = Some (PDict [(opr, PInt n)]))"
| "matches_cond v cond = (v = Some cond)"

definition matches_filter :: "pydict \<Rightarrow> pydict \<Rightarrow> bool" where
  "matches_filter flt doc =
     list_all (\<lambda>k. case map_of flt k of
                      None \<Rightarrow> True
                    | Some cond \<Rightarrow> matches_cond (map_of doc k) cond)
              (map fst flt)"

definition find_docs :: "pydict \<Rightarrow> 'a collection_scheme \<Rightarrow> pydict list" where
  "find_docs flt c = filter (matches_filter flt) (docs c)"

definition find_one :: "pydict \<Rightarrow> 'a collection_scheme \<Rightarrow> pydict option" where
  "find_one flt c = List.find (matches_filter flt) (docs c)"

definition insert_one :: "pydict \<Rightarrow> 'a collection_scheme \<Rightarrow> 'a collection_scheme" where
  "insert_one doc c =
     (case map_of doc MONGO_ID_KEY of
        None \<Rightarrow> c\<lparr>docs := docs c @ [AList.update MONGO_ID_KEY (PObjectId (next_oid c)) doc],
                  next_oid := Suc (next_oid c)\<rparr>
      | Some oid \<Rightarrow> c\<lparr>docs := docs c @ [doc]\<rparr>)"

definition keep_id :: "pydict \<Rightarrow> pydict \<Rightarrow> pydict" where
  "keep_id old new = (case map_of old MONGO_ID_KEY of
                        None \<Rightarrow> new
                      | Some oid \<Rightarrow> AList.update MONGO_ID_KEY oid new)"

fun replace_first :: "(pydict \<Rightarrow> bool) \<Rightarrow> pydict \<Rightarrow> pydict list \<Rightarrow> pydict list option" where
  "replace_first P new [] = None"
| "replace_first P new (d # ds) =
     (if P d then Some (keep_id d new # ds)
      else (case replace_first P new ds of None \<Rightarrow> None | Some ds' \<Rightarrow> Some (d # ds')))"

definition replace_one ::
  "pydict \<Rightarrow> pydict \<Rightarrow> bool \<Rightarrow> 'a collection_scheme \<Rightarrow> 'a collection_scheme" where
  "replace_one flt doc upsert c =
     (case replace_first (matches_filter flt) doc (docs c) of
        Some ds \<Rightarrow> c\<lparr>docs := ds\<rparr>
      | None \<Rightarrow> if upsert then insert_one doc c else c)"

section \<open>The identifier sequence of \<open>logToMongod\<close>\<close>

definition get_last_used_log_id :: "'a collection_scheme \<Rightarrow> pyerror + pyval" where
  "get_last_used_log_id c =
     (let attribute_dict = [(''_meta_data'', PStr ''log_id'')]
      in case find_one attribute_dict c of
           None \<Rightarrow> Inr PNone
         | Some last_id_dict \<Rightarrow>
             (case map_of last_id_dict ''next_id'' of
                None \<Rightarrow> Inl (KeyError ''next_id'')
              | Some v \<Rightarrow> Inr v))"

definition update_log_id :: "int \<Rightarrow> 'a collection_scheme \<Rightarrow> 'a collection_scheme" where
  "update_log_id next_id c =
     (let attribute_dict = [(''_meta_data'', PStr ''log_id'')];
          next_id_dict = [(''_meta_data'', PStr ''log_id''), (''next_id'', PInt next_id)]
      in replace_one attribute_dict next_id_dict True c)"

text \<open>
  \<open>logger.get_next_log_id\<close> with the two methods of \<open>logToMongod\<close>. \<open>last_id + 1\<close> raises
  \<open>TypeError\<close> when the stored value is not a number.
\<close>

definition get_next_log_id :: "'a collection_scheme \<Rightarrow> pyerror + (int \<times> 'a collection_scheme)" where
  "get_next_log_id c =
     (case get_last_used_log_id c of
        Inl e \<Rightarrow> Inl e
      | Inr last_id \<Rightarrow>
          (let last_id = (if last_id = PNone then PInt (- 1) else last_id)
           in case last_id of
                PInt n \<Rightarrow> (let next_id = n + 1 in Inr (next_id, update_log_id next_id c))
              | _ \<Rightarrow> Inl TypeError))"

text \<open>A sequence of \<open>n\<close> calls of \<open>get_next_log_id\<close>, with the ids in call order.\<close>

fun get_next_log_ids :: "nat \<Rightarrow> 'a collection_scheme \<Rightarrow> pyerror + (int list \<times> 'a collection_scheme)" where
  "get_next_log_ids 0 c = Inr ([], c)"
| "get_next_log_ids (Suc n) c =
     (case get_next_log_id c of
        Inl e \<Rightarrow> Inl e
      | Inr (i, c') \<Rightarrow>
          (case get_next_log_ids n c' of
             Inl e \<Rightarrow> Inl e
           | Inr (ids, c'') \<Rightarrow> Inr (i # ids, c'')))"

definition empty_collection :: collection where
  "empty_collection = \<lparr>docs = [], next_oid = 0\<rparr>"

definition restarted_collection :: collection where
  "restarted_collection =
     \<lparr>docs = [[(''_meta_data'', PStr ''log_id''), (''next_id'', PInt 41), (''_id'', PObjectId 0)]],
      next_oid = 1\<rparr>"

section \<open>The query service: \<open>accessLogFromMongodb\<close>\<close>

text \<open>
  A default argument \<open>attribute_dict=dict()\<close> is one dictionary object, built when the
  class body is run and shared by all calls that leave the argument out. The three
  methods have one each, at the first three addresses of the heap.
\<close>

definition get_log_items_default :: nat where "get_log_items_default = 0"
definition print_log_items_default :: nat where "print_log_items_default = 1"
definition get_log_items_as_entries_default :: nat where "get_log_items_as_entries_default = 2"

definition module_heap :: heap where
  "module_heap = \<lparr>dicts = [[], [], []], loggers = []\<rparr>"

text \<open>
  The filter as the store receives it: a referenced dictionary is sent by value.
\<close>

definition deref :: "heap \<Rightarrow> pyval \<Rightarrow> pyval" where
  "deref h v = (case v of PRef r \<Rightarrow> PDict (dicts h ! r) | _ \<Rightarrow> v)"

definition dict_by_value :: "heap \<Rightarrow> nat \<Rightarrow> pydict" where
  "dict_by_value h a = map (\<lambda>(k, v). (k, deref h v)) (dicts h ! a)"

text \<open>A list comprehension whose body may raise stops at the first exception.\<close>

fun map_result :: "('a \<Rightarrow> pyerror + 'b) \<Rightarrow> 'a list \<Rightarrow> pyerror + 'b list" where
  "map_result f [] = Inr []"
| "map_result f (x # xs) =
     (case f x of
        Inl e \<Rightarrow> Inl e
      | Inr y \<Rightarrow> (case map_result f xs of Inl e \<Rightarrow> Inl e | Inr ys \<Rightarrow> Inr (y # ys)))"

text \<open>
  \<open>results.sort(key=lambda x: x._log_id)\<close>: a stable sort. Integers order among
  themselves and strings among themselves; a list of two or more entries whose ids do
  not order (a mix, \<open>None\<close>, dictionaries) raises \<open>TypeError\<close>.
\<close>

definition is_int_id :: "logEntry \<Rightarrow> bool" where
  "is_int_id e = (case entry_log_id e of PInt n \<Rightarrow> True | _ \<Rightarrow> False)"

definition int_id :: "logEntry \<Rightarrow> int" where
  "int_id e = (case entry_log_id e of PInt n \<Rightarrow> n | _ \<Rightarrow> 0)"

definition is_str_id :: "logEntry \<Rightarrow> bool" where
  "is_str_id e = (case entry_log_id e of PStr s \<Rightarrow> True | _ \<Rightarrow> False)"

definition str_id :: "logEntry \<Rightarrow> string" where
  "str_id e = (case entry_log_id e of PStr s \<Rightarrow> s | _ \<Rightarrow> [])"

definition sort_by_log_id :: "logEntry list \<Rightarrow> pyerror + logEntry list" where
  "sort_by_log_id results =
     (if length results \<le> 1 then Inr results
      else if list_all is_int_id results then Inr (sort_key int_id results)
      else if list_all is_str_id results then Inr (sort_key str_id results)
      else Inl TypeError)"

text \<open>
  \<open>get_log_items_as_entries\<close>. \<open>attribute_dict\<close> is the address of the caller's
  dictionary, or \<open>None\<close> when the argument is left out; \<open>now\<close> is the reading of
  \<open>datetime.datetime.now()\<close>. The result is the heap after the call and what the call
  returns or raises.
\<close>

definition get_log_items_as_entries ::
  "dateutils \<Rightarrow> int \<Rightarrow> 'a collection_scheme \<Rightarrow> nat option \<Rightarrow> int \<Rightarrow> heap
     \<Rightarrow> heap \<times> (pyerror + logEntry list)" where
  "get_log_items_as_entries du now mongo attribute_dict lookback_days h =
     (let attribute_dict = (case attribute_dict of
                              None \<Rightarrow> get_log_items_as_entries_default
                            | Some a \<Rightarrow> a);
          cutoff_date = now - timedelta_days lookback_days;
          (timestamp_dict, h) = new_dict [] h;
          h = setitem timestamp_dict ''$gt'' (PInt (datetime_to_long du cutoff_date)) h;
          h = setitem attribute_dict TIMESTAMP_ID (PRef timestamp_dict) h;
          result_dict = find_docs (dict_by_value h attribute_dict) mongo;
          results_list = result_dict
      in (h, case map_result (log_entry_from_dict du now) results_list of
               Inl e \<Rightarrow> Inl e
             | Inr results \<Rightarrow> sort_by_log_id results))"

text \<open>
  \<open>get_log_items\<close> and \<open>print_log_items\<close> pass their own \<open>attribute_dict\<close> on. The
  rendering \<open>str(log_entry)\<close> is not modelled: the entries stand for their text.
\<close>

definition get_log_items ::
  "dateutils \<Rightarrow> int \<Rightarrow> 'a collection_scheme \<Rightarrow> nat option \<Rightarrow> int \<Rightarrow> heap
     \<Rightarrow> heap \<times> (pyerror + logEntry list)" where
  "get_log_items du now mongo attribute_dict lookback_days h =
     (let attribute_dict = (case attribute_dict of None \<Rightarrow> get_log_items_default | Some a \<Rightarrow> a)
      in get_log_items_as_entries du now mongo (Some attribute_dict) lookback_days h)"

definition print_log_items ::
  "dateutils \<Rightarrow> int \<Rightarrow> 'a collection_scheme \<Rightarrow> nat option \<Rightarrow> int \<Rightarrow> heap
     \<Rightarrow> heap \<times> (pyerror + logEntry list)" where
  "print_log_items du now mongo attribute_dict lookback_days h =
     (let attribute_dict = (case attribute_dict of None \<Rightarrow> print_log_items_default | Some a \<Rightarrow> a)
      in get_log_items du now mongo (Some attribute_dict) lookback_days h)"

text \<open>No dictionary of the heap refers to an address that is not allocated.\<close>

definition refs_allocated :: "heap \<Rightarrow> bool" where
  "refs_allocated h =
     list_all (\<lambda>d. list_all (\<lambda>kv. case snd kv of PRef r \<Rightarrow> r < length (dicts h) | _ \<Rightarrow> True) d)
              (dicts h)"

text \<open>
  The selection that a query for the attribute filter \<open>F\<close> makes, in words of the
  stored documents: the \<open>_Timestamp\<close> field is an integer strictly above the long form
  of the cutoff, and every other field of \<open>F\<close> has in the document the value it has in
  \<open>F\<close>. An attribute filter holds plain values, strings and numbers, under its fields
  other than \<open>_Timestamp\<close>; what it holds under \<open>_Timestamp\<close> (the item an earlier
  query has left there) does not matter, since the query overwrites it.
\<close>

definition query_selects :: "pydict \<Rightarrow> int \<Rightarrow> pydict \<Rightarrow> bool" where
  "query_selects F cutoff_long doc =
     ((case map_of doc TIMESTAMP_ID of Some (PInt x) \<Rightarrow> cutoff_long < x | _ \<Rightarrow> False)
      \<and> list_all (\<lambda>k. k = TIMESTAMP_ID \<or> map_of doc k = map_of F k) (map fst F))"

definition plain_values :: "pydict \<Rightarrow> bool" where
  "plain_values F =
     list_all (\<lambda>kv. fst kv = TIMESTAMP_ID
                    \<or> (case snd kv of PInt n \<Rightarrow> True | PStr s \<Rightarrow> True | _ \<Rightarrow> False)) F"

text \<open>The reserved field that \<open>log_entry_from_dict\<close> misses first, if any.\<close>

definition first_missing :: "pydict \<Rightarrow> string option" where
  "first_missing d =
     List.find (\<lambda>k. map_of d k = None)
       [MONGO_ID_KEY, TIMESTAMP_ID, LEVEL_ID, TEXT_ID, LOG_RECORD_ID]"

text \<open>
  Example store and heap: the counter record, four records of type X or Y, and a
  caller's filter \<open>{"type": "X"}\<close> at address 3. With \<open>now = query_now\<close> and one day of
  lookback the cutoff has the long form 1000.
\<close>

definition query_now :: int where
  "query_now = 86400001000"

definition query_heap :: heap where
  "query_heap = \<lparr>dicts = [[], [], [], [(''type'', PStr ''X'')]], loggers = []\<rparr>"

text \<open>The heap after one query with the filter at address 3.\<close>

definition used_query_heap :: heap where
  "used_query_heap =
     \<lparr>dicts = [[], [], [], [(''type'', PStr ''X''), (''_Timestamp'', PRef 4)],
               [(''$gt'', PInt 1000)]],
      loggers = []\<rparr>"

definition query_collection :: collection where
  "query_collection =
     \<lparr>docs =
        [[(''_meta_data'', PStr ''log_id''), (''next_id'', PInt 3), (''_id'', PObjectId 0)],
         [(''type'', PStr ''X''), (''_Level'', PInt 0), (''_Timestamp'', PInt 2000),
          (''_Text'', PStr ''b''), (''_Log_Record_id'', PInt 1), (''_id'', PObjectId 2)],
         [(''type'', PStr ''X''), (''_Level'', PInt 2), (''_Timestamp'', PInt 1500),
          (''_Text'', PStr ''a''), (''_Log_Record_id'', PInt 0), (''_id'', PObjectId 1)],
         [(''type'', PStr ''Y''), (''_Level'', PInt 2), (''_Timestamp'', PInt 1700),
          (''_Text'', PStr ''c''), (''_Log_Record_id'', PInt 2), (''_id'', PObjectId 3)],
         [(''type'', PStr ''X''), (''_Level'', PInt 2), (''_Timestamp'', PInt 1000),
          (''_Text'', PStr ''d''), (''_Log_Record_id'', PInt 3), (''_id'', PObjectId 4)]],
      next_oid = 5\<rparr>"

definition entry_a :: logEntry where
  "entry_a =
     \<lparr>entry_log_dict =
        [(''type'', PStr ''X''), (''_Level'', PInt 2), (''_Timestamp'', PInt 1500),
         (''_Text'', PStr ''a''), (''_Log_Record_id'', PInt 0)],
      entry_use_attributes = [(''type'', PStr ''X'')],
      entry_text = PStr ''a'', entry_msglevel = PInt 2, entry_msglevel_text = ''[Warning]'',
      entry_timestamp_as_long = 1500, entry_timestamp = 1500, entry_log_id = PInt 0\<rparr>"

definition entry_b :: logEntry where
  "entry_b =
     \<lparr>entry_log_dict =
        [(''type'', PStr ''X''), (''_Level'', PInt 0), (''_Timestamp'', PInt 2000),
         (''_Text'', PStr ''b''), (''_Log_Record_id'', PInt 1)],
      entry_use_attributes = [(''type'', PStr ''X'')],
      entry_text = PStr ''b'', entry_msglevel = PInt 0, entry_msglevel_text = [],
      entry_timestamp_as_long = 2000, entry_timestamp = 2000, entry_log_id = PInt 1\<rparr>"

text \<open>The same store with the \<open>_Text\<close> field of the record with id 1 lost.\<close>

definition corrupt_collection :: collection where
  "corrupt_collection =
     \<lparr>docs =
        [[(''type'', PStr ''X''), (''_Level'', PInt 2), (''_Timestamp'', PInt 1500),
          (''_Text'', PStr ''a''), (''_Log_Record_id'', PInt 0), (''_id'', PObjectId 1)],
         [(''type'', PStr ''X''), (''_Level'', PInt 0), (''_Timestamp'', PInt 2000),
          (''_Log_Record_id'', PInt 1), (''_id'', PObjectId 2)],
         [(''type'', PStr ''X''), (''_Level'', PInt 2), (''_Timestamp'', PInt 2500),
          (''_Text'', PStr ''e''), (''_Log_Record_id'', PInt 2), (''_id'', PObjectId 3)]],
      next_oid = 4\<rparr>"

definition entry_d :: logEntry where
  "entry_d =
     \<lparr>entry_log_dict =
        [(''type'', PStr ''X''), (''_Level'', PInt 2), (''_Timestamp'', PInt 1000),
         (''_Text'', PStr ''d''), (''_Log_Record_id'', PInt 3)],
      entry_use_attributes = [(''type'', PStr ''X'')],
      entry_text = PStr ''d'', entry_msglevel = PInt 2, entry_msglevel_text = ''[Warning]'',
      entry_timestamp_as_long = 1000, entry_timestamp = 1000, entry_log_id = PInt 3\<rparr>"

section \<open>The durable sink: \<open>logToMongod\<close>\<close>

text \<open>
  What the sink uses from outside: the datetime conversions, the notification transport
  \<open>send_mail_msg\<close> (\<open>syslogdiag.emailing\<close>, not among the source files; \<open>True\<close> when the
  message is sent, \<open>False\<close> when the call raises) and the clock, whose \<open>n\<close>-th
  reading is \<open>clock n\<close>. The rendering \<open>str(log_entry)\<close> is not modelled: the console
  and the transport receive the entry.

  The state: the collection, the console, the calls made to the transport, the number
  of clock readings so far and the heap of loggers and dictionaries.
\<close>

record env =
  env_dateutils :: dateutils
  send_mail_msg :: "logEntry \<Rightarrow> string \<Rightarrow> bool"
  clock :: "nat \<Rightarrow> int"

record sink = collection +
  console :: "logEntry list"
  mail_attempts :: "(logEntry \<times> string) list"
  ticks :: nat
  objects :: heap

definition EMAIL_ON_LOG_LEVEL :: "int list" where
  "EMAIL_ON_LOG_LEVEL = [4]"

definition in_levels :: "pyval \<Rightarrow> int list \<Rightarrow> bool" where
  "in_levels msglevel levels = (case msglevel of PInt n \<Rightarrow> n \<in> set levels | _ \<Rightarrow> False)"

text \<open>
  \<open>logToMongod.log_handle_caller\<close>, \<open>email_user\<close>, \<open>logger.error\<close> and \<open>logger.log\<close>
  call one another: \<open>email_user\<close> reports a failed notification through \<open>self.error\<close>,
  which logs at level 3 through the same sink. \<open>self\<close> is the address of the logger,
  \<open>input_attributes\<close> the address of the merged attribute dictionary. The bare
  \<open>except:\<close> of \<open>email_user\<close> catches whatever the transport raises; what \<open>self.error\<close>
  raises inside the handler propagates.
\<close>

function
  logToMongod_log_handle_caller ::
    "env \<Rightarrow> nat \<Rightarrow> pyval \<Rightarrow> pyval \<Rightarrow> nat \<Rightarrow> pyval \<Rightarrow> sink \<Rightarrow> pyerror + (logEntry \<times> sink)" and
  logToMongod_email_user :: "env \<Rightarrow> nat \<Rightarrow> logEntry \<Rightarrow> sink \<Rightarrow> pyerror + sink" and
  logToMongod_error :: "env \<Rightarrow> nat \<Rightarrow> pyval \<Rightarrow> pydict \<Rightarrow> sink \<Rightarrow> pyerror + (logEntry \<times> sink)" and
  logToMongod_log ::
    "env \<Rightarrow> nat \<Rightarrow> pyval \<Rightarrow> pyval \<Rightarrow> pydict \<Rightarrow> sink \<Rightarrow> pyerror + (logEntry \<times> sink)"
where
  "logToMongod_log_handle_caller env self msglevel text input_attributes log_id s =
     (let now = clock env (ticks s);
          s = s\<lparr>ticks := Suc (ticks s)\<rparr>
      in case logEntry_init (env_dateutils env) now text None msglevel
                (dicts (objects s) ! input_attributes) log_id of
           Inl e \<Rightarrow> Inl e
         | Inr log_entry \<Rightarrow>
             (let s = s\<lparr>console := console s @ [log_entry]\<rparr>;
                  s = insert_one (log_dict log_entry) s
              in if in_levels msglevel EMAIL_ON_LOG_LEVEL
                 then (case logToMongod_email_user env self log_entry s of
                         Inl e \<Rightarrow> Inl e
                       | Inr s \<Rightarrow> Inr (log_entry, s))
                 else Inr (log_entry, s)))"
| "logToMongod_email_user env self log_entry s =
     (let s = s\<lparr>mail_attempts := mail_attempts s @ [(log_entry, ''*CRITICAL ERROR*'')]\<rparr>
      in if send_mail_msg env log_entry ''*CRITICAL ERROR*'' then Inr s
         else (case logToMongod_error env self
                      (PStr (''Couldn'' @ [CHR 0x27] @ ''t email user'')) [] s of
                 Inl e \<Rightarrow> Inl e
               | Inr (entry, s) \<Rightarrow> Inr s))"
| "logToMongod_error env self text kwargs s = logToMongod_log env self text (PInt 3) kwargs s"
| "logToMongod_log env self text msglevel kwargs s =
     (let log_attributes = attributes (loggers (objects s) ! self)
      in case get_next_log_id s of
           Inl e \<Rightarrow> Inl e
         | Inr (log_id, s) \<Rightarrow>
             (let (use_attributes, h) = get_update_attributes_list log_attributes kwargs (objects s);
                  s = s\<lparr>objects := h\<rparr>
              in logToMongod_log_handle_caller env self msglevel text use_attributes (PInt log_id) s))"
  by pat_completeness auto
termination
  by (relation "measure (\<lambda>x. case x of
        Inl (Inl (env, self, msglevel, rest)) \<Rightarrow> (if in_levels msglevel EMAIL_ON_LOG_LEVEL then 4 else 0)
      | Inl (Inr y) \<Rightarrow> 3
      | Inr (Inl z) \<Rightarrow> 2
      | Inr (Inr (env, self, text, msglevel, rest)) \<Rightarrow>
          (if in_levels msglevel EMAIL_ON_LOG_LEVEL then 5 else 1))")
     (auto simp: in_levels_def EMAIL_ON_LOG_LEVEL_def)

text \<open>\<open>logger.critical\<close> on a \<open>logToMongod\<close>.\<close>

definition logToMongod_critical ::
  "env \<Rightarrow> nat \<Rightarrow> pyval \<Rightarrow> pydict \<Rightarrow> sink \<Rightarrow> pyerror + (logEntry \<times> sink)" where
  "logToMongod_critical env self text kwargs s = logToMongod_log env self text (PInt 4) kwargs s"

text \<open>The counter record is the first document the counter filter finds, and holds \<open>i\<close>.\<close>

definition counter_is :: "int \<Rightarrow> pydict list \<Rightarrow> bool" where
  "counter_is i ds =
     (case List.find (matches_filter [(''_meta_data'', PStr ''log_id'')]) ds of
        None \<Rightarrow> False
      | Some d \<Rightarrow> map_of d ''next_id'' = Some (PInt i))"

text \<open>
  Example: a transport that always raises, and a sink with an empty store and one
  logger of type \<open>sys\<close>.
\<close>

definition failing_env :: env where
  "failing_env =
     \<lparr>env_dateutils = plain_dateutils,
      send_mail_msg = (\<lambda>e subject. False),
      clock = (\<lambda>n. 1000 + int n)\<rparr>"

definition example_sink :: sink where
  "example_sink =
     \<lparr>docs = [], next_oid = 0, console = [], mail_attempts = [], ticks = 0,
      objects = \<lparr>dicts = [[(''type'', PStr ''sys'')]],
                 loggers = [\<lparr>attributes = 0, log_level_attr = Some ''off''\<rparr>]\<rparr>\<rparr>"

section \<open>Theorems: the console sink\<close>

text \<open>
  C4. The console output of \<open>logtoscreen.log_handle_caller\<close> on each of the 15
  (severity, threshold) pairs, starting from an empty console. The text reaches the
  console exactly on the pairs the decision table marks yes, but severities 2 and 3
  print it twice: once in the \<open>else\<close> branch and once more in the statement
  \<open>if msglevel == 2\<close> (\<open>if msglevel == 3\<close>) that follows. Severity 4 prints once and
  raises \<open>Exception(text)\<close>. The doctest of the method shows one line for
  \<open>log.warn\<close> and for \<open>log.error\<close>.
\<close>

theorem logtoscreen_console_table:
  "logtoscreen_log_handle_caller ''off'' 0 text [] = ([], None)
   \<and> logtoscreen_log_handle_caller ''terse'' 0 text [] = ([], None)
   \<and> logtoscreen_log_handle_caller ''on'' 0 text [] = ([text], None)
   \<and> logtoscreen_log_handle_caller ''off'' 1 text [] = ([], None)
   \<and> logtoscreen_log_handle_caller ''terse'' 1 text [] = ([text], None)
   \<and> logtoscreen_log_handle_caller ''on'' 1 text [] = ([text], None)
   \<and> logtoscreen_log_handle_caller ''off'' 2 text [] = ([text, text], None)
   \<and> logtoscreen_log_handle_caller ''terse'' 2 text [] = ([text, text], None)
   \<and> logtoscreen_log_handle_caller ''on'' 2 text [] = ([text, text], None)
   \<and> logtoscreen_log_handle_caller ''off'' 3 text [] = ([text, text], None)
   \<and> logtoscreen_log_handle_caller ''terse'' 3 text [] = ([text, text], None)
   \<and> logtoscreen_log_handle_caller ''on'' 3 text [] = ([text, text], None)
   \<and> logtoscreen_log_handle_caller ''off'' 4 text [] = ([text], Some (PyException text))
   \<and> logtoscreen_log_handle_caller ''terse'' 4 text [] = ([text], Some (PyException text))
   \<and> logtoscreen_log_handle_caller ''on'' 4 text [] = ([text], Some (PyException text))"
  by (simp add: logtoscreen_log_handle_caller_def)

section \<open>Theorems: logger derivation and attribute dictionaries\<close>

lemma update_attributes_loop_shape:
  "dicts h = ds @ [m] \<Longrightarrow> joined = length ds \<Longrightarrow> set keys \<subseteq> dom (map_of new) \<Longrightarrow>
   \<exists>m'. dicts (update_attributes_loop joined new keys h) = ds @ [m']
        \<and> map_of m' = map_of m ++ (map_of new |` set keys)
        \<and> loggers (update_attributes_loop joined new keys h) = loggers h"
proof (induction keys arbitrary: h m)
  case Nil
  then show ?case by simp
next
  case (Cons k keys)
  from Cons.prems obtain v where v: "map_of new k = Some v" by auto
  let ?h = "setitem joined k v h"
  have d: "dicts ?h = ds @ [AList.update k v m]"
    using Cons.prems(1,2) by (simp add: setitem_def)
  have l: "loggers ?h = loggers h" by (simp add: setitem_def)
  from Cons.IH[OF d Cons.prems(2)] Cons.prems(3)
  obtain m' where m': "dicts (update_attributes_loop joined new keys ?h) = ds @ [m']"
    "map_of m' = map_of (AList.update k v m) ++ (map_of new |` set keys)"
    "loggers (update_attributes_loop joined new keys ?h) = loggers ?h" by auto
  have "map_of m' = map_of m ++ (map_of new |` set (k # keys))"
  proof
    fix x show "map_of m' x = (map_of m ++ (map_of new |` set (k # keys))) x"
      using m'(2) v by (auto simp: update_conv' map_add_def restrict_map_def split: option.splits)
  qed
  with m' l v show ?case by simp
qed

lemma get_update_attributes_list_shape:
  "\<exists>m. get_update_attributes_list parent new h = (length (dicts h), h\<lparr>dicts := dicts h @ [m]\<rparr>)
       \<and> map_of m = map_of (dicts h ! parent) ++ map_of new"
proof -
  let ?h1 = "h\<lparr>dicts := dicts h @ [dicts h ! parent]\<rparr>"
  have "set (map fst new) \<subseteq> dom (map_of new)" by (auto simp: dom_map_of_conv_image_fst)
  from update_attributes_loop_shape[of ?h1 "dicts h" "dicts h ! parent" "length (dicts h)" "map fst new" new, OF _ refl this]
  obtain m' where m': "dicts (update_attributes_loop (length (dicts h)) new (map fst new) ?h1) = dicts h @ [m']"
    "map_of m' = map_of (dicts h ! parent) ++ (map_of new |` set (map fst new))"
    "loggers (update_attributes_loop (length (dicts h)) new (map fst new) ?h1) = loggers h" by auto
  have r: "map_of new |` set (map fst new) = map_of new"
    by (rule ext) (auto simp: restrict_map_def map_of_eq_None_iff[symmetric])
  have "update_attributes_loop (length (dicts h)) new (map fst new) ?h1 = h\<lparr>dicts := dicts h @ [m']\<rparr>"
    using m'(1,3) by (intro heap.equality) simp_all
  with m'(2) r show ?thesis
    by (auto simp: get_update_attributes_list_def new_dict_def)
qed


lemma logger_setup_shape:
  assumes "self < length (loggers h)"
  shows "\<exists>m. logger_setup self kwargs h =
         (length (loggers h),
          \<lparr>dicts = dicts h @ [m],
           loggers = loggers h @ [\<lparr>attributes = length (dicts h),
                                   log_level_attr = Some (logging_level self h)\<rparr>]\<rparr>)
       \<and> map_of m = map_of (dicts h ! attributes (loggers h ! self)) ++ map_of kwargs"
proof -
  let ?h1 = "h\<lparr>loggers := loggers h @ [loggers h ! self]\<rparr>"
  obtain m where m: "get_update_attributes_list (attributes (loggers h ! self)) kwargs ?h1
                      = (length (dicts ?h1), ?h1\<lparr>dicts := dicts ?h1 @ [m]\<rparr>)"
    "map_of m = map_of (dicts ?h1 ! attributes (loggers h ! self)) ++ map_of kwargs"
    using get_update_attributes_list_shape[of "attributes (loggers h ! self)" kwargs ?h1] by blast
  have "logger_setup self kwargs h =
         (length (loggers h),
          \<lparr>dicts = dicts h @ [m],
           loggers = loggers h @ [\<lparr>attributes = length (dicts h),
                                   log_level_attr = Some (logging_level self h)\<rparr>]\<rparr>)"
    using m(1) assms
    by (simp add: logger_setup_def Let_def set_attributes_def set_log_level_def logging_level_def nth_append)
  with m(2) show ?thesis by simp
qed

lemma logger_label_shape:
  assumes "self < length (loggers h)"
  shows "\<exists>m. logger_label self kwargs h =
         \<lparr>dicts = dicts h @ [m],
          loggers = (loggers h)[self := (loggers h ! self)\<lparr>attributes := length (dicts h)\<rparr>]\<rparr>
       \<and> map_of m = map_of (dicts h ! attributes (loggers h ! self)) ++ map_of kwargs"
proof -
  obtain m where m: "get_update_attributes_list (attributes (loggers h ! self)) kwargs h
                      = (length (dicts h), h\<lparr>dicts := dicts h @ [m]\<rparr>)"
    "map_of m = map_of (dicts h ! attributes (loggers h ! self)) ++ map_of kwargs"
    using get_update_attributes_list_shape[of "attributes (loggers h ! self)" kwargs h] by blast
  have "logger_label self kwargs h =
         \<lparr>dicts = dicts h @ [m],
          loggers = (loggers h)[self := (loggers h ! self)\<lparr>attributes := length (dicts h)\<rparr>]\<rparr>"
    using m(1) by (simp add: logger_label_def Let_def set_attributes_def)
  with m(2) show ?thesis by simp
qed

lemma logger_init_shape:
  assumes "logger_init type log_level kwargs h = Inr (new_log, h')"
  shows "\<exists>ds. new_log = length (loggers h) \<and> ds \<noteq> []
          \<and> h' = h\<lparr>dicts := dicts h @ ds,
                    loggers := loggers h @
                     [\<lparr>attributes = length (dicts h) + length ds - 1,
                       log_level_attr = Some (lower (case log_level of None \<Rightarrow> ''Off'' | Some l \<Rightarrow> l))\<rparr>]\<rparr>
          \<and> lower (case log_level of None \<Rightarrow> ''Off'' | Some l \<Rightarrow> l) \<in> set allowed_levels"
proof (cases type)
  case (TypeStr s)
  let ?h1 = "h\<lparr>dicts := dicts h @ [[(''type'', PStr s)]]\<rparr>"
  obtain m where m: "get_update_attributes_list (length (dicts h)) kwargs ?h1
                      = (length (dicts ?h1), ?h1\<lparr>dicts := dicts ?h1 @ [m]\<rparr>)"
    using get_update_attributes_list_shape[of "length (dicts h)" kwargs ?h1] by blast
  show ?thesis using assms TypeStr m
    apply (simp add: logger_init_def Let_def new_dict_def set_logging_level_def set_log_level_def split: if_splits)
    apply (rule exI[of _ "[[(''type'', PStr s)], m]"])
    apply auto
    done
next
  case (TypeLogger p)
  obtain m where m: "get_update_attributes_list (attributes (loggers h ! p)) kwargs h
                      = (length (dicts h), h\<lparr>dicts := dicts h @ [m]\<rparr>)"
    using get_update_attributes_list_shape[of "attributes (loggers h ! p)" kwargs h] by blast
  show ?thesis using assms TypeLogger m
    apply (simp add: logger_init_def Let_def new_dict_def set_logging_level_def set_log_level_def split: if_splits)
    apply (rule exI[of _ "[m]"])
    apply auto
    done
next
  case TypeOther
  with assms show ?thesis by (simp add: logger_init_def Let_def)
qed


lemma logger_init_succeeds:
  assumes "type \<noteq> TypeOther"
    and "lower (case log_level of None \<Rightarrow> ''Off'' | Some l \<Rightarrow> l) \<in> set allowed_levels"
  shows "\<exists>new_log h'. logger_init type log_level kwargs h = Inr (new_log, h')"
proof (cases type)
  case (TypeStr s)
  let ?h1 = "h\<lparr>dicts := dicts h @ [[(''type'', PStr s)]]\<rparr>"
  obtain m where m: "get_update_attributes_list (length (dicts h)) kwargs ?h1
                      = (length (dicts ?h1), ?h1\<lparr>dicts := dicts ?h1 @ [m]\<rparr>)"
    using get_update_attributes_list_shape[of "length (dicts h)" kwargs ?h1] by blast
  show ?thesis using assms TypeStr m
    by (simp add: logger_init_def Let_def new_dict_def set_logging_level_def)
next
  case (TypeLogger p)
  obtain m where m: "get_update_attributes_list (attributes (loggers h ! p)) kwargs h
                      = (length (dicts h), h\<lparr>dicts := dicts h @ [m]\<rparr>)"
    using get_update_attributes_list_shape[of "attributes (loggers h ! p)" kwargs h] by blast
  show ?thesis using assms TypeLogger m
    by (simp add: logger_init_def Let_def new_dict_def set_logging_level_def)
next
  case TypeOther
  with assms show ?thesis by simp
qed

lemma no_alias_fresh:
  assumes "no_alias h" and "ds \<noteq> []"
  shows "no_alias (h\<lparr>dicts := dicts h @ ds,
                     loggers := loggers h @ [\<lparr>attributes = length (dicts h) + length ds - 1, log_level_attr = l\<rparr>]\<rparr>)"
  using assms by (cases ds) (auto simp: no_alias_def list_all_iff)

lemma no_alias_relabel:
  assumes "no_alias h" and "self < length (loggers h)"
  shows "no_alias \<lparr>dicts = dicts h @ [m],
          loggers = (loggers h)[self := (loggers h ! self)\<lparr>attributes := length (dicts h)\<rparr>]\<rparr>"
proof -
  have fresh: "\<forall>l \<in> set (loggers h). attributes l < length (dicts h)"
    using assms(1) by (simp add: no_alias_def list_all_iff)
  have d: "distinct (map attributes (loggers h))" using assms(1) by (simp add: no_alias_def)
  have "map attributes ((loggers h)[self := (loggers h ! self)\<lparr>attributes := length (dicts h)\<rparr>])
        = (map attributes (loggers h))[self := length (dicts h)]"
    by (simp add: map_update)
  moreover have "length (dicts h) \<notin> set (map attributes (loggers h))" using fresh by auto
  ultimately have "distinct (map attributes ((loggers h)[self := (loggers h ! self)\<lparr>attributes := length (dicts h)\<rparr>]))"
    using d by (simp add: distinct_list_update)
  moreover have "\<forall>l \<in> set ((loggers h)[self := (loggers h ! self)\<lparr>attributes := length (dicts h)\<rparr>]). attributes l < Suc (length (dicts h))"
    using fresh by (auto dest!: set_update_subset_insert[THEN subsetD] simp: less_Suc_eq)
  ultimately show ?thesis by (simp add: no_alias_def list_all_iff)
qed

lemma apply_op_no_alias:
  assumes "no_alias h" and "apply_op op h = Some h'"
  shows "no_alias h'"
proof (cases op)
  case (Construct type log_level kwargs)
  show ?thesis
  proof (cases "logger_init type log_level kwargs h")
    case (Inl e)
    with assms Construct show ?thesis by (simp split: if_splits)
  next
    case (Inr p)
    obtain new_log h2 where p: "p = (new_log, h2)" by (cases p)
    from logger_init_shape[OF Inr[unfolded p]] obtain ds where
      "ds \<noteq> []" "h2 = h\<lparr>dicts := dicts h @ ds,
                    loggers := loggers h @
                     [\<lparr>attributes = length (dicts h) + length ds - 1,
                       log_level_attr = Some (lower (case log_level of None \<Rightarrow> ''Off'' | Some l \<Rightarrow> l))\<rparr>]\<rparr>"
      by blast
    with no_alias_fresh[OF assms(1), of ds] have "no_alias h2" by simp
    with assms Construct Inr p show ?thesis by (simp split: if_splits)
  qed
next
  case (Setup self kwargs)
  with assms have lt: "self < length (loggers h)" and h': "h' = snd (logger_setup self kwargs h)"
    by (simp_all split: if_splits)
  from logger_setup_shape[OF lt, of kwargs] obtain m where
    "logger_setup self kwargs h =
         (length (loggers h),
          \<lparr>dicts = dicts h @ [m],
           loggers = loggers h @ [\<lparr>attributes = length (dicts h),
                                   log_level_attr = Some (logging_level self h)\<rparr>]\<rparr>)" by blast
  with h' no_alias_fresh[OF assms(1), of "[m]" "Some (logging_level self h)"] show ?thesis
    by (cases h) simp
next
  case (Label self kwargs)
  with assms have lt: "self < length (loggers h)" and h': "h' = logger_label self kwargs h"
    by (simp_all split: if_splits)
  from logger_label_shape[OF lt, of kwargs] obtain m where
    "logger_label self kwargs h =
         \<lparr>dicts = dicts h @ [m],
          loggers = (loggers h)[self := (loggers h ! self)\<lparr>attributes := length (dicts h)\<rparr>]\<rparr>" by blast
  with h' no_alias_relabel[OF assms(1) lt] show ?thesis by simp
next
  case (SetLoggingLevel self new_level)
  from assms SetLoggingLevel have lt: "self < length (loggers h)" by (simp split: if_splits)
  have "map attributes ((loggers h)[self := (loggers h ! self)\<lparr>log_level_attr := Some l\<rparr>]) = map attributes (loggers h)" for l
    using lt by (simp add: map_update list_update_same_conv)
  moreover have "\<forall>x\<in>set ((loggers h)[self := (loggers h ! self)\<lparr>log_level_attr := Some l\<rparr>]). attributes x < length (dicts h)" for l
    using assms(1) lt by (auto dest!: set_update_subset_insert[THEN subsetD] simp: no_alias_def list_all_iff)
  ultimately show ?thesis using assms SetLoggingLevel
    by (auto simp: set_logging_level_def set_log_level_def no_alias_def list_all_iff Let_def split: if_splits)
qed

lemma run_ops_no_alias:
  "no_alias h \<Longrightarrow> run_ops ops h = Some h' \<Longrightarrow> no_alias h'"
  by (induction ops arbitrary: h) (auto split: option.splits dest: apply_op_no_alias)



lemma lower_Off: "lower ''Off'' = ''off''"
  by code_simp

text \<open>
  C8. \<open>setup\<close> returns a new logger whose labels are those of \<open>self\<close> with the keys of
  \<open>kwargs\<close> overridden (for each key the value of \<open>kwargs\<close> wins), held in a dictionary
  object of its own. The logger \<open>self\<close> keeps its dictionary object, no dictionary that
  existed before the call is changed, and so the labels seen through \<open>self\<close> are the
  same after the call.
\<close>

theorem logger_setup_labels_frame:
  assumes "self < length (loggers h)" and "attributes (loggers h ! self) < length (dicts h)"
  shows "case logger_setup self kwargs h of (new_log, h') \<Rightarrow>
      map_of (attributes_of h' new_log) = map_of (attributes_of h self) ++ map_of kwargs
    \<and> attributes_of h' self = attributes_of h self
    \<and> attributes (loggers h' ! self) = attributes (loggers h ! self)
    \<and> take (length (dicts h)) (dicts h') = dicts h
    \<and> attributes (loggers h' ! new_log) \<noteq> attributes (loggers h' ! self)"
proof -
  from logger_setup_shape[OF assms(1), of kwargs] obtain m where
    s: "logger_setup self kwargs h =
         (length (loggers h),
          \<lparr>dicts = dicts h @ [m],
           loggers = loggers h @ [\<lparr>attributes = length (dicts h),
                                   log_level_attr = Some (logging_level self h)\<rparr>]\<rparr>)"
    and m: "map_of m = map_of (dicts h ! attributes (loggers h ! self)) ++ map_of kwargs"
    by blast
  show ?thesis using assms m by (simp add: s attributes_of_def nth_append)
qed


theorem logger_setup_labels_frame_witness:
  "(0::nat) < length (loggers base_on_heap)
   \<and> attributes (loggers base_on_heap ! 0) < length (dicts base_on_heap)
   \<and> map_of (attributes_of (snd (logger_setup 0 [(''stage'', PStr ''test2'')] base_on_heap))
               (fst (logger_setup 0 [(''stage'', PStr ''test2'')] base_on_heap)))
       = map_of (attributes_of base_on_heap 0) ++ map_of [(''stage'', PStr ''test2'')]
   \<and> attributes_of (snd (logger_setup 0 [(''stage'', PStr ''test2'')] base_on_heap)) 0
       = [(''type'', PStr ''base_system'')]"
proof -
  have a: "(0::nat) < length (loggers base_on_heap)"
    and b: "attributes (loggers base_on_heap ! 0) < length (dicts base_on_heap)"
    and c: "attributes_of base_on_heap 0 = [(''type'', PStr ''base_system'')]"
    by (simp_all add: base_on_heap_def attributes_of_def)
  from logger_setup_labels_frame[OF a b, of "[(''stage'', PStr ''test2'')]"] a b c
  show ?thesis by (simp add: case_prod_beta)
qed

text \<open>
  C7 (as the code has it). A logger derived with \<open>setup\<close> has the threshold of the logger
  it is derived from. The constructor form \<open>logger(B, log_level=L, **overrides)\<close> does not
  look at the threshold of \<open>B\<close>: the new logger's threshold is \<open>L\<close> in lower case, and
  \<open>off\<close> when \<open>log_level\<close> is left out (the parameter's default is \<open>"Off"\<close>).
\<close>

theorem derived_logger_threshold:
  "(self < length (loggers h) \<longrightarrow>
      logging_level (fst (logger_setup self kwargs h)) (snd (logger_setup self kwargs h))
        = logging_level self h)
   \<and> (lower L \<in> set allowed_levels \<longrightarrow>
        (\<exists>new_log h'. logger_init (TypeLogger base) (Some L) kwargs h = Inr (new_log, h')
                     \<and> logging_level new_log h' = lower L))
   \<and> (\<exists>new_log h'. logger_init (TypeLogger base) None kwargs h = Inr (new_log, h')
                     \<and> logging_level new_log h' = ''off'')"
proof (intro conjI impI)
  assume lt: "self < length (loggers h)"
  from logger_setup_shape[OF lt, of kwargs] obtain m where
    "logger_setup self kwargs h =
       (length (loggers h),
        \<lparr>dicts = dicts h @ [m],
         loggers = loggers h @ [\<lparr>attributes = length (dicts h),
                                 log_level_attr = Some (logging_level self h)\<rparr>]\<rparr>)"
    by blast
  then show "logging_level (fst (logger_setup self kwargs h)) (snd (logger_setup self kwargs h))
        = logging_level self h"
    by (simp add: logging_level_def)
next
  assume ok: "lower L \<in> set allowed_levels"
  then obtain new_log h' where r: "logger_init (TypeLogger base) (Some L) kwargs h = Inr (new_log, h')"
    using logger_init_succeeds[of "TypeLogger base" "Some L" kwargs h] by auto
  from logger_init_shape[OF r] have "logging_level new_log h' = lower L"
    by (auto simp: logging_level_def)
  with r show "\<exists>new_log h'. logger_init (TypeLogger base) (Some L) kwargs h = Inr (new_log, h')
                     \<and> logging_level new_log h' = lower L" by blast
next
  have "lower (case None of None \<Rightarrow> ''Off'' | Some l \<Rightarrow> l) \<in> set allowed_levels"
    by (simp add: lower_Off allowed_levels_def)
  then obtain new_log h' where r: "logger_init (TypeLogger base) None kwargs h = Inr (new_log, h')"
    using logger_init_succeeds[of "TypeLogger base" None kwargs h] by auto
  from logger_init_shape[OF r] have "logging_level new_log h' = ''off''"
    by (auto simp: logging_level_def lower_Off)
  with r show "\<exists>new_log h'. logger_init (TypeLogger base) None kwargs h = Inr (new_log, h')
                     \<and> logging_level new_log h' = ''off''" by blast
qed

theorem derived_logger_threshold_witness:
  "(0::nat) < length (loggers base_on_heap)
   \<and> logging_level (fst (logger_setup 0 [] base_on_heap)) (snd (logger_setup 0 [] base_on_heap)) = ''on''
   \<and> lower ''Terse'' \<in> set allowed_levels
   \<and> (\<exists>new_log h'. logger_init (TypeLogger 0) (Some ''Terse'') [] base_on_heap = Inr (new_log, h')
                     \<and> logging_level new_log h' = ''terse'')"
proof -
  have a: "(0::nat) < length (loggers base_on_heap)" by (simp add: base_on_heap_def)
  have b: "logging_level 0 base_on_heap = ''on''" by (simp add: base_on_heap_def logging_level_def)
  have c: "lower ''Terse'' = ''terse''" by code_simp
  have d: "lower ''Terse'' \<in> set allowed_levels" by (simp add: c allowed_levels_def)
  from derived_logger_threshold[of 0 base_on_heap "[]" "''Terse''" 0] a b c d
  show ?thesis by simp
qed

text \<open>
  The claim as stated fails for the constructor form: \<open>B = logger("base_system",
  log_level="on")\<close>, then \<open>logger(B, stage="x")\<close> has threshold \<open>off\<close>, while \<open>B\<close> has
  \<open>on\<close>.
\<close>

theorem constructor_threshold_counterexample:
  "logger_init (TypeStr ''base_system'') (Some ''on'') [] empty_heap = Inr (0, base_on_heap)
   \<and> logger_init (TypeLogger 0) None [(''stage'', PStr ''x'')] base_on_heap = Inr (1, derived_heap)
   \<and> logging_level 0 derived_heap = ''on''
   \<and> logging_level 1 derived_heap = ''off''"
  by code_simp

text \<open>
  C10. Starting from a heap in which no two loggers hold the same dictionary object,
  every sequence of constructions, \<open>setup\<close>, \<open>label\<close> and \<open>set_logging_level\<close> calls
  leads to a heap in which again no two loggers hold the same dictionary object; and
  there \<open>label\<close> on one logger leaves every dictionary object that existed, and so the
  attributes seen through every other logger, as they were.
\<close>

theorem loggers_never_share_attributes:
  assumes "no_alias h0" and "run_ops ops h0 = Some h"
  shows "distinct (map attributes (loggers h))
       \<and> (\<forall>self other kwargs.
            self < length (loggers h) \<and> other < length (loggers h) \<and> other \<noteq> self \<longrightarrow>
              attributes_of (logger_label self kwargs h) other = attributes_of h other
              \<and> take (length (dicts h)) (dicts (logger_label self kwargs h)) = dicts h)"
proof -
  have inv: "no_alias h" using assms by (rule run_ops_no_alias)
  then have d: "distinct (map attributes (loggers h))" by (simp add: no_alias_def)
  have f: "attributes_of (logger_label self kwargs h) other = attributes_of h other
           \<and> take (length (dicts h)) (dicts (logger_label self kwargs h)) = dicts h"
    if "self < length (loggers h)" "other < length (loggers h)" "other \<noteq> self"
    for self other kwargs
  proof -
    from logger_label_shape[OF that(1), of kwargs] obtain m where
      l: "logger_label self kwargs h =
           \<lparr>dicts = dicts h @ [m],
            loggers = (loggers h)[self := (loggers h ! self)\<lparr>attributes := length (dicts h)\<rparr>]\<rparr>"
      by blast
    have "attributes (loggers h ! other) < length (dicts h)"
      using inv that(2) by (simp add: no_alias_def list_all_length)
    with that show ?thesis by (simp add: l attributes_of_def nth_append)
  qed
  from d f show ?thesis by blast
qed

theorem loggers_never_share_attributes_witness:
  "no_alias empty_heap
   \<and> run_ops doctest_ops empty_heap = Some doctest_heap
   \<and> distinct (map attributes (loggers doctest_heap))
   \<and> attributes_of (logger_label 2 [(''stage'', PStr ''other'')] doctest_heap) 1
       = [(''type'', PStr ''another_system''), (''stage'', PStr ''combForecast'')]"
proof -
  have a: "no_alias empty_heap" by (simp add: no_alias_def empty_heap_def)
  have b: "run_ops doctest_ops empty_heap = Some doctest_heap" by code_simp
  have c: "attributes_of doctest_heap 1
            = [(''type'', PStr ''another_system''), (''stage'', PStr ''combForecast'')]"
    by (simp add: attributes_of_def doctest_heap_def)
  have d: "(2::nat) < length (loggers doctest_heap)" "(1::nat) < length (loggers doctest_heap)"
    by (simp_all add: doctest_heap_def)
  from loggers_never_share_attributes[OF a b] a b c d show ?thesis by simp
qed

section \<open>Theorems: log entries and their stored form\<close>

lemma msg_level_text_defined:
  assumes "0 \<le> n" "n \<le> 4"
  shows "\<exists>t. map_of MSG_LEVEL_DICT (''m'' @ format_d n) = Some t"
proof -
  from assms have "n = 0 \<or> n = 1 \<or> n = 2 \<or> n = 3 \<or> n = 4" by arith
  moreover have "map_of MSG_LEVEL_DICT (''m'' @ format_d 0) = Some []" by code_simp
  moreover have "map_of MSG_LEVEL_DICT (''m'' @ format_d 1) = Some []" by code_simp
  moreover have "map_of MSG_LEVEL_DICT (''m'' @ format_d 2) = Some ''[Warning]''" by code_simp
  moreover have "map_of MSG_LEVEL_DICT (''m'' @ format_d 3) = Some ''[Error]''" by code_simp
  moreover have "map_of MSG_LEVEL_DICT (''m'' @ format_d 4) = Some ''*CRITICAL*''" by code_simp
  ultimately show ?thesis by auto
qed

lemma logEntry_init_Inr:
  assumes "logEntry_init du now text log_timestamp msglevel attrs lid = Inr r"
  shows "\<exists>n t. msglevel = PInt n \<and> map_of MSG_LEVEL_DICT (''m'' @ format_d n) = Some t \<and>
     r = \<lparr>entry_log_dict =
            AList.update LOG_RECORD_ID lid (AList.update TEXT_ID text
              (AList.update TIMESTAMP_ID
                 (PInt (datetime_to_long du (case log_timestamp of None \<Rightarrow> now | Some t \<Rightarrow> t)))
                 (AList.update LEVEL_ID msglevel attrs))),
          entry_use_attributes = attrs,
          entry_text = text,
          entry_msglevel = msglevel,
          entry_msglevel_text = t,
          entry_timestamp_as_long = datetime_to_long du (case log_timestamp of None \<Rightarrow> now | Some t \<Rightarrow> t),
          entry_timestamp = (case log_timestamp of None \<Rightarrow> now | Some t \<Rightarrow> t),
          entry_log_id = lid\<rparr>"
  using assms
  by (auto simp: logEntry_init_def Let_def split: pyval.splits option.splits sum.splits)

lemma logEntry_init_succeeds:
  assumes "0 \<le> n" "n \<le> 4"
  shows "\<exists>r. logEntry_init du now text log_timestamp (PInt n) attrs lid = Inr r"
  using msg_level_text_defined[OF assms]
  by (auto simp: logEntry_init_def Let_def)

lemmas key_defs = MONGO_ID_KEY_def TIMESTAMP_ID_def LEVEL_ID_def TEXT_ID_def LOG_RECORD_ID_def

text \<open>
  What \<open>log_entry_from_dict\<close> does on a mapping read back from the store, that is on
  any dictionary that holds the items of \<open>r.log_dict()\<close> and the store's identity field:
  when the attributes of \<open>r\<close> use none of the reserved keys nor the identity key, it
  returns a record with the text, severity, severity label, attributes and id of \<open>r\<close>,
  and with the timestamp that \<open>long_to_datetime\<close> gives for the stored long form.
\<close>

lemma log_entry_from_stored_dict:
  assumes r: "logEntry_init du now text log_timestamp msglevel attrs lid = Inr r"
    and keys: "map_of attrs MONGO_ID_KEY = None" "map_of attrs TIMESTAMP_ID = None"
      "map_of attrs LEVEL_ID = None" "map_of attrs TEXT_ID = None"
      "map_of attrs LOG_RECORD_ID = None"
    and lt: "long_to_datetime du (PInt (entry_timestamp_as_long r)) = Inr t'"
    and d: "map_of d = (map_of (log_dict r))(MONGO_ID_KEY \<mapsto> oid)"
  shows "\<exists>r'. log_entry_from_dict du now' d = Inr r'
           \<and> entry_text r' = entry_text r
           \<and> entry_msglevel r' = entry_msglevel r
           \<and> entry_msglevel_text r' = entry_msglevel_text r
           \<and> entry_timestamp r' = t'
           \<and> map_of (entry_use_attributes r') = map_of (entry_use_attributes r)
           \<and> entry_log_id r' = entry_log_id r"
proof -
  from logEntry_init_Inr[OF r] obtain n t where
    ml: "msglevel = PInt n" and t: "map_of MSG_LEVEL_DICT (''m'' @ format_d n) = Some t"
    and req: "r = \<lparr>entry_log_dict =
            AList.update LOG_RECORD_ID lid (AList.update TEXT_ID text
              (AList.update TIMESTAMP_ID
                 (PInt (datetime_to_long du (case log_timestamp of None \<Rightarrow> now | Some t \<Rightarrow> t)))
                 (AList.update LEVEL_ID msglevel attrs))),
          entry_use_attributes = attrs,
          entry_text = text,
          entry_msglevel = msglevel,
          entry_msglevel_text = t,
          entry_timestamp_as_long = datetime_to_long du (case log_timestamp of None \<Rightarrow> now | Some t \<Rightarrow> t),
          entry_timestamp = (case log_timestamp of None \<Rightarrow> now | Some t \<Rightarrow> t),
          entry_log_id = lid\<rparr>" by blast
  define ts where "ts = (case log_timestamp of None \<Rightarrow> now | Some t \<Rightarrow> t)"
  have md: "map_of d = (map_of attrs)(LEVEL_ID \<mapsto> msglevel, TIMESTAMP_ID \<mapsto> PInt (datetime_to_long du ts),
              TEXT_ID \<mapsto> text, LOG_RECORD_ID \<mapsto> lid, MONGO_ID_KEY \<mapsto> oid)"
    using d by (simp add: req log_dict_def update_conv' ts_def)
  define rest where "rest = AList.delete LOG_RECORD_ID (AList.delete TEXT_ID (AList.delete LEVEL_ID
                     (AList.delete TIMESTAMP_ID (AList.delete MONGO_ID_KEY d))))"
  have mrest: "map_of rest = map_of attrs"
  proof
    fix k show "map_of rest k = map_of attrs k"
      using keys by (simp add: rest_def delete_conv' md)
  qed
  have lt': "long_to_datetime du (PInt (datetime_to_long du ts)) = Inr t'"
    using lt by (simp add: req ts_def)
  have fd: "log_entry_from_dict du now' d = logEntry_init du now' text (Some t') msglevel rest lid"
    by (simp add: log_entry_from_dict_def pop_def Let_def delete_conv' md key_defs lt' rest_def)
  have "logEntry_init du now' text (Some t') msglevel rest lid =
     Inr \<lparr>entry_log_dict =
            AList.update LOG_RECORD_ID lid (AList.update TEXT_ID text
              (AList.update TIMESTAMP_ID (PInt (datetime_to_long du t'))
                 (AList.update LEVEL_ID msglevel rest))),
          entry_use_attributes = rest,
          entry_text = text,
          entry_msglevel = msglevel,
          entry_msglevel_text = t,
          entry_timestamp_as_long = datetime_to_long du t',
          entry_timestamp = t',
          entry_log_id = lid\<rparr>"
    using ml t by (simp add: logEntry_init_def Let_def)
  with fd mrest show ?thesis
    by (simp add: req)
qed

text \<open>
  C1. The claim asks that \<open>log_entry_from_dict\<close>, applied to the mapping that
  \<open>log_dict()\<close> produces, rebuild the record, and the docstring of the method names that
  input (\<open>dict, as per logEntry.log_dict()\<close>). The code does not do so: for every record
  \<open>r\<close> built by \<open>logEntry\<close> whose attributes have no item under the store's identity
  key, \<open>log_entry_from_dict(r.log_dict())\<close> raises \<open>KeyError\<close> for that key and returns
  no record, since \<open>log_dict()\<close> holds no identity field and \<open>pop(MONGO_ID_KEY)\<close> has no
  default.
\<close>

theorem log_entry_from_log_dict_raises:
  assumes r: "logEntry_init du now text log_timestamp msglevel attrs lid = Inr r"
    and noid: "map_of attrs MONGO_ID_KEY = None"
  shows "log_entry_from_dict du now' (log_dict r) = Inl (KeyError MONGO_ID_KEY)"
proof -
  from logEntry_init_Inr[OF r] have "log_dict r =
      AList.update LOG_RECORD_ID lid (AList.update TEXT_ID text
        (AList.update TIMESTAMP_ID
           (PInt (datetime_to_long du (case log_timestamp of None \<Rightarrow> now | Some t \<Rightarrow> t)))
           (AList.update LEVEL_ID msglevel attrs)))"
    by (auto simp: log_dict_def)
  then have "map_of (log_dict r) MONGO_ID_KEY = map_of attrs MONGO_ID_KEY"
    by (simp add: update_conv' key_defs)
  with noid have "map_of (log_dict r) MONGO_ID_KEY = None" by simp
  then show ?thesis by (simp add: log_entry_from_dict_def pop_def Let_def)
qed

theorem log_entry_from_log_dict_raises_witness:
  "logEntry_init plain_dateutils 0 (PStr ''disk full'') (Some 1000) (PInt 3)
      [(''type'', PStr ''sys'')] (PInt 5) = Inr example_entry
   \<and> map_of [(''type'', PStr ''sys'')] MONGO_ID_KEY = None
   \<and> log_entry_from_dict plain_dateutils 0 (log_dict example_entry) = Inl (KeyError ''_id'')"
proof -
  have r: "logEntry_init plain_dateutils 0 (PStr ''disk full'') (Some 1000) (PInt 3)
      [(''type'', PStr ''sys'')] (PInt 5) = Inr example_entry"
    by code_simp
  have k: "map_of [(''type'', PStr ''sys'')] MONGO_ID_KEY = None"
    by (simp add: key_defs)
  from log_entry_from_log_dict_raises[OF r k, of 0] r k show ?thesis
    by (simp add: MONGO_ID_KEY_def)
qed

text \<open>
  The same record read back from the store, where the identity field is present: the
  call returns a record with the same text, severity, timestamp, attributes and id.
\<close>

lemma log_entry_from_stored_example:
  "\<exists>r'. log_entry_from_dict plain_dateutils 7 stored_example = Inr r'
         \<and> entry_text r' = PStr ''disk full''
         \<and> entry_msglevel r' = PInt 3
         \<and> entry_timestamp r' = 1000
         \<and> map_of (entry_use_attributes r') = map_of [(''type'', PStr ''sys'')]
         \<and> entry_log_id r' = PInt 5"
proof -
  have r: "logEntry_init plain_dateutils 0 (PStr ''disk full'') (Some 1000) (PInt 3)
      [(''type'', PStr ''sys'')] (PInt 5) = Inr example_entry"
    by code_simp
  have k: "map_of [(''type'', PStr ''sys'')] MONGO_ID_KEY = None"
    "map_of [(''type'', PStr ''sys'')] TIMESTAMP_ID = None"
    "map_of [(''type'', PStr ''sys'')] LEVEL_ID = None"
    "map_of [(''type'', PStr ''sys'')] TEXT_ID = None"
    "map_of [(''type'', PStr ''sys'')] LOG_RECORD_ID = None"
    by (simp_all add: key_defs)
  have lt: "long_to_datetime plain_dateutils (PInt (entry_timestamp_as_long example_entry)) = Inr 1000"
    by (simp add: plain_dateutils_def example_entry_def)
  have d: "map_of stored_example = (map_of (log_dict example_entry))(MONGO_ID_KEY \<mapsto> PObjectId 0)"
    by (simp add: stored_example_def update_conv')
  have e: "entry_text example_entry = PStr ''disk full''" "entry_msglevel example_entry = PInt 3"
    "entry_use_attributes example_entry = [(''type'', PStr ''sys'')]"
    "entry_log_id example_entry = PInt 5"
    by (simp_all add: example_entry_def)
  from log_entry_from_stored_dict[OF r k lt d, of 7] show ?thesis
    unfolding e by blast
qed

section \<open>Theorems: the identifier sequence\<close>

lemma matches_meta_filter:
  "matches_filter [(''_meta_data'', PStr ''log_id'')] d
     \<longleftrightarrow> map_of d ''_meta_data'' = Some (PStr ''log_id'')"
  by (simp add: matches_filter_def)

lemma replace_first_None:
  "replace_first P new ds = None \<longleftrightarrow> List.find P ds = None"
  by (induction ds) (auto split: option.splits)

lemma find_replace_first:
  assumes "\<And>old. P (keep_id old new)" and "replace_first P new ds = Some ds'"
  shows "\<exists>old. List.find P ds' = Some (keep_id old new)"
  using assms(2)
proof (induction ds arbitrary: ds')
  case Nil
  then show ?case by simp
next
  case (Cons d ds)
  show ?case
  proof (cases "P d")
    case True
    with Cons.prems assms(1) show ?thesis by auto
  next
    case False
    with Cons.prems obtain ds2 where "replace_first P new ds = Some ds2" "ds' = d # ds2"
      by (auto split: option.splits)
    with Cons.IH False show ?thesis by auto
  qed
qed

lemma find_append_new:
  "List.find P ds = None \<Longrightarrow> P x \<Longrightarrow> List.find P (ds @ [x]) = Some x"
  by (induction ds) (auto split: if_splits)

lemma keep_id_lookup:
  "k \<noteq> MONGO_ID_KEY \<Longrightarrow> map_of (keep_id old new) k = map_of new k"
  by (simp add: keep_id_def update_conv' split: option.splits)

lemma update_log_id_unfold:
  "update_log_id k c =
     replace_one [(''_meta_data'', PStr ''log_id'')]
       [(''_meta_data'', PStr ''log_id''), (''next_id'', PInt k)] True c"
  by (simp add: update_log_id_def Let_def)

lemma get_last_used_log_id_found:
  "find_one [(''_meta_data'', PStr ''log_id'')] c = Some d \<Longrightarrow> map_of d ''next_id'' = Some v
   \<Longrightarrow> get_last_used_log_id c = Inr v"
  by (simp add: get_last_used_log_id_def Let_def)

lemma meta_keys_not_id: "''_meta_data'' \<noteq> MONGO_ID_KEY" "''next_id'' \<noteq> MONGO_ID_KEY"
  by (simp_all add: MONGO_ID_KEY_def)

lemma get_last_used_after_update:
  "get_last_used_log_id (update_log_id k c) = Inr (PInt k)"
proof -
  let ?F = "[(''_meta_data'', PStr ''log_id'')]"
  let ?new = "[(''_meta_data'', PStr ''log_id''), (''next_id'', PInt k)]"
  have keep: "map_of (keep_id old ?new) ''_meta_data'' = Some (PStr ''log_id'')"
    "map_of (keep_id old ?new) ''next_id'' = Some (PInt k)" for old
    by (simp_all add: keep_id_lookup[OF meta_keys_not_id(1)] keep_id_lookup[OF meta_keys_not_id(2)])
  show ?thesis
  proof (cases "replace_first (matches_filter ?F) ?new (docs c)")
    case None
    then have nf: "List.find (matches_filter ?F) (docs c) = None"
      by (simp add: replace_first_None)
    let ?x = "AList.update MONGO_ID_KEY (PObjectId (next_oid c)) ?new"
    have noid: "map_of ?new MONGO_ID_KEY = None" by (simp add: MONGO_ID_KEY_def)
    have x1: "map_of ?x ''_meta_data'' = Some (PStr ''log_id'')"
      and x2: "map_of ?x ''next_id'' = Some (PInt k)"
      using meta_keys_not_id by (simp_all add: update_conv')
    have mx: "matches_filter ?F ?x" using x1 by (simp only: matches_meta_filter)
    have f: "List.find (matches_filter ?F) (docs c @ [?x]) = Some ?x"
      using nf mx by (rule find_append_new[of "matches_filter ?F" "docs c" ?x])
    have "docs (update_log_id k c) = docs c @ [?x]"
      unfolding update_log_id_unfold replace_one_def insert_one_def None noid by simp
    with f have "find_one ?F (update_log_id k c) = Some ?x"
      by (simp only: find_one_def)
    from get_last_used_log_id_found[OF this x2] show ?thesis .
  next
    case (Some ds')
    have "\<And>old. matches_filter ?F (keep_id old ?new)"
      using keep(1) by (simp only: matches_meta_filter)
    from find_replace_first[of "matches_filter ?F" ?new, OF this Some]
    obtain old where f: "List.find (matches_filter ?F) ds' = Some (keep_id old ?new)" by blast
    have "docs (update_log_id k c) = ds'"
      unfolding update_log_id_unfold replace_one_def Some by simp
    with f have "find_one ?F (update_log_id k c) = Some (keep_id old ?new)"
      by (simp only: find_one_def)
    from get_last_used_log_id_found[OF this keep(2)] show ?thesis .
  qed
qed

lemma get_next_log_id_after:
  assumes "get_last_used_log_id c = Inr (PInt N)"
  shows "get_next_log_id c = Inr (N + 1, update_log_id (N + 1) c)"
  using assms by (simp add: get_next_log_id_def Let_def)

lemma get_next_log_id_fresh:
  assumes "find_one [(''_meta_data'', PStr ''log_id'')] c = None"
  shows "get_next_log_id c = Inr (0, update_log_id 0 c)"
  using assms by (simp add: get_next_log_id_def get_last_used_log_id_def Let_def)

lemma get_next_log_ids_after:
  "get_last_used_log_id c = Inr (PInt N) \<Longrightarrow>
   \<exists>c'. get_next_log_ids n c = Inr (map (\<lambda>k. N + 1 + int k) [0..<n], c')"
proof (induction n arbitrary: c N)
  case 0
  then show ?case by simp
next
  case (Suc n)
  let ?c1 = "update_log_id (N + 1) c"
  have l1: "get_last_used_log_id ?c1 = Inr (PInt (N + 1))" by (rule get_last_used_after_update)
  from Suc.IH[OF l1] obtain c' where
    r: "get_next_log_ids n ?c1 = Inr (map (\<lambda>k. N + 1 + 1 + int k) [0..<n], c')" by blast
  have "map (\<lambda>k. N + 1 + int k) [0..<Suc n] = (N + 1) # map (\<lambda>k. N + 1 + 1 + int k) [0..<n]"
    by (simp add: upt_conv_Cons map_Suc_upt[symmetric] del: upt_Suc)
  with r get_next_log_id_after[OF Suc.prems] show ?case by simp
qed

text \<open>
  C3. Against a store with no counter record, \<open>n\<close> calls of \<open>get_next_log_id\<close> return
  0, 1, ..., \<open>n - 1\<close> in call order. The sequence lives in the store alone, so a restart
  is a call against the store as it was left: when the counter record holds \<open>N\<close>, the
  next call returns \<open>N + 1\<close> and leaves \<open>N + 1\<close> in the counter record, and \<open>n\<close> calls
  return \<open>N + 1\<close>, ..., \<open>N + n\<close>.
\<close>

theorem log_ids_count_up:
  "(find_one [(''_meta_data'', PStr ''log_id'')] c = None \<longrightarrow>
      (\<exists>c'. get_next_log_ids n c = Inr (map int [0..<n], c')))
   \<and> (get_last_used_log_id c = Inr (PInt N) \<longrightarrow>
        (\<exists>c'. get_next_log_id c = Inr (N + 1, c') \<and> get_last_used_log_id c' = Inr (PInt (N + 1)))
        \<and> (\<exists>c'. get_next_log_ids n c = Inr (map (\<lambda>k. N + 1 + int k) [0..<n], c')))"
proof (intro conjI impI)
  assume fresh: "find_one [(''_meta_data'', PStr ''log_id'')] c = None"
  show "\<exists>c'. get_next_log_ids n c = Inr (map int [0..<n], c')"
  proof (cases n)
    case 0
    then show ?thesis by simp
  next
    case (Suc m)
    from get_next_log_ids_after[where n=m, OF get_last_used_after_update[of 0 c]]
    obtain c' where r: "get_next_log_ids m (update_log_id 0 c) = Inr (map (\<lambda>k. 0 + 1 + int k) [0..<m], c')"
      by blast
    have "map int [0..<Suc m] = 0 # map (\<lambda>k. 0 + 1 + int k) [0..<m]"
      by (simp add: upt_conv_Cons map_Suc_upt[symmetric] del: upt_Suc)
    with r get_next_log_id_fresh[OF fresh] Suc show ?thesis by simp
  qed
next
  assume l: "get_last_used_log_id c = Inr (PInt N)"
  from get_next_log_id_after[OF l] get_last_used_after_update[of "N + 1" c]
  show "\<exists>c'. get_next_log_id c = Inr (N + 1, c') \<and> get_last_used_log_id c' = Inr (PInt (N + 1))"
    by blast
  from get_next_log_ids_after[OF l]
  show "\<exists>c'. get_next_log_ids n c = Inr (map (\<lambda>k. N + 1 + int k) [0..<n], c')" .
qed

theorem log_ids_count_up_witness:
  "find_one [(''_meta_data'', PStr ''log_id'')] empty_collection = None
   \<and> (\<exists>c'. get_next_log_ids 3 empty_collection = Inr ([0, 1, 2], c'))
   \<and> get_last_used_log_id restarted_collection = Inr (PInt 41)
   \<and> (\<exists>c'. get_next_log_id restarted_collection = Inr (42, c')
            \<and> get_last_used_log_id c' = Inr (PInt 42))"
proof -
  have a: "find_one [(''_meta_data'', PStr ''log_id'')] empty_collection = None"
    by (simp add: find_one_def empty_collection_def)
  have b: "get_last_used_log_id restarted_collection = Inr (PInt 41)"
    by code_simp
  have c: "map int [0..<3] = [0, 1, 2]" by (simp add: upt_conv_Cons)
  from log_ids_count_up[of empty_collection 3] a c
  have "\<exists>c'. get_next_log_ids 3 empty_collection = Inr ([0, 1, 2], c')" by simp
  moreover from log_ids_count_up[of restarted_collection 0 41] b
  have "\<exists>c'. get_next_log_id restarted_collection = Inr (42, c')
            \<and> get_last_used_log_id c' = Inr (PInt 42)" by simp
  ultimately show ?thesis using a b by blast
qed

section \<open>Theorems: the query service\<close>

lemma get_log_items_as_entries_heap:
  assumes "a < length (dicts h)"
  shows "fst (get_log_items_as_entries du now mongo (Some a) days h) =
     h\<lparr>dicts := (dicts h)[a := AList.update TIMESTAMP_ID (PRef (length (dicts h))) (dicts h ! a)]
                  @ [[(''$gt'', PInt (datetime_to_long du (now - timedelta_days days)))]]\<rparr>"
  using assms
  by (simp add: get_log_items_as_entries_def Let_def new_dict_def setitem_def nth_append list_update_append)

lemma get_log_items_as_entries_result:
  "snd (get_log_items_as_entries du now mongo (Some a) days h) =
     (case map_result (log_entry_from_dict du now)
             (find_docs (dict_by_value (fst (get_log_items_as_entries du now mongo (Some a) days h)) a) mongo) of
        Inl e \<Rightarrow> Inl e
      | Inr results \<Rightarrow> sort_by_log_id results)"
  by (simp add: get_log_items_as_entries_def Let_def new_dict_def case_prod_beta)

lemma get_log_items_as_entries_omitted:
  "get_log_items_as_entries du now mongo None days h =
   get_log_items_as_entries du now mongo (Some get_log_items_as_entries_default) days h"
  by (simp add: get_log_items_as_entries_def)

lemma map_of_allocated:
  assumes "refs_allocated h" "a < length (dicts h)" "map_of (dicts h ! a) k = Some (PRef r)"
  shows "r < length (dicts h)"
proof -
  from assms(3) have "(k, PRef r) \<in> set (dicts h ! a)" by (rule map_of_SomeD)
  moreover from assms(1,2) have
    "list_all (\<lambda>kv. case snd kv of PRef r \<Rightarrow> r < length (dicts h) | _ \<Rightarrow> True) (dicts h ! a)"
    by (simp add: refs_allocated_def list_all_length)
  ultimately show ?thesis by (auto simp: list_all_iff)
qed

text \<open>
  C9. \<open>get_log_items_as_entries\<close> changes the caller's filter dictionary itself (the
  shared default dictionary when the argument is left out): after the call the
  dictionary at the same address maps \<open>_Timestamp\<close> to a dictionary object built by the
  call, which holds \<open>{"$gt": datetime_to_long(now - lookback)}\<close>, and keeps its other
  items. The filter is therefore not what it was before the call. \<open>get_log_items\<close> and
  \<open>print_log_items\<close> hand their \<open>attribute_dict\<close> to it, so the same holds for them.
\<close>

theorem query_mutates_filter:
  assumes "a < length (dicts h)" and "refs_allocated h"
    and "a = (case attribute_dict of None \<Rightarrow> get_log_items_as_entries_default | Some x \<Rightarrow> x)"
    and "h' = fst (get_log_items_as_entries du now mongo attribute_dict days h)"
  shows "map_of (dicts h' ! a) = (map_of (dicts h ! a))(TIMESTAMP_ID \<mapsto> PRef (length (dicts h)))
       \<and> map_of (dict_by_value h' a) TIMESTAMP_ID
           = Some (PDict [(''$gt'', PInt (datetime_to_long du (now - timedelta_days days)))])
       \<and> dicts h' ! a \<noteq> dicts h ! a
       \<and> get_log_items du now mongo (Some a) days h
           = get_log_items_as_entries du now mongo (Some a) days h
       \<and> print_log_items du now mongo (Some a) days h
           = get_log_items_as_entries du now mongo (Some a) days h
       \<and> get_log_items du now mongo None days h
           = get_log_items_as_entries du now mongo (Some get_log_items_default) days h
       \<and> print_log_items du now mongo None days h
           = get_log_items_as_entries du now mongo (Some print_log_items_default) days h"
proof -
  let ?p = "[(''$gt'', PInt (datetime_to_long du (now - timedelta_days days)))]"
  let ?n = "length (dicts h)"
  have "get_log_items_as_entries du now mongo attribute_dict days h
        = get_log_items_as_entries du now mongo (Some a) days h"
    using assms(3) by (cases attribute_dict) (simp_all add: get_log_items_as_entries_omitted)
  with assms(4) get_log_items_as_entries_heap[OF assms(1), of du now mongo days]
  have h': "h' = h\<lparr>dicts := (dicts h)[a := AList.update TIMESTAMP_ID (PRef ?n) (dicts h ! a)] @ [?p]\<rparr>"
    by simp
  have d: "dicts h' ! a = AList.update TIMESTAMP_ID (PRef ?n) (dicts h ! a)"
    using assms(1) by (simp add: h' nth_append)
  have m: "map_of (dicts h' ! a) = (map_of (dicts h ! a))(TIMESTAMP_ID \<mapsto> PRef ?n)"
    by (simp add: d update_conv')
  have "map_of (dict_by_value h' a) TIMESTAMP_ID = map_option (deref h') (map_of (dicts h' ! a) TIMESTAMP_ID)"
    by (simp add: dict_by_value_def map_of_map)
  also have "\<dots> = Some (deref h' (PRef ?n))"
    by (simp add: m)
  also have "dicts h' ! ?n = ?p"
    by (simp add: h' nth_append)
  then have "Some (deref h' (PRef ?n)) = Some (PDict ?p)"
    by (simp add: deref_def)
  finally have v: "map_of (dict_by_value h' a) TIMESTAMP_ID = Some (PDict ?p)" .
  have ne: "dicts h' ! a \<noteq> dicts h ! a"
  proof
    assume "dicts h' ! a = dicts h ! a"
    with m have "map_of (dicts h ! a) TIMESTAMP_ID = Some (PRef ?n)"
      by (metis fun_upd_same)
    from map_of_allocated[OF assms(2,1) this] show False by simp
  qed
  have g: "get_log_items du now mongo (Some a) days h
           = get_log_items_as_entries du now mongo (Some a) days h"
    by (simp add: get_log_items_def)
  have p: "print_log_items du now mongo (Some a) days h
           = get_log_items_as_entries du now mongo (Some a) days h"
    by (simp add: print_log_items_def get_log_items_def)
  have g0: "get_log_items du now mongo None days h
           = get_log_items_as_entries du now mongo (Some get_log_items_default) days h"
    by (simp add: get_log_items_def)
  have p0: "print_log_items du now mongo None days h
           = get_log_items_as_entries du now mongo (Some print_log_items_default) days h"
    by (simp add: print_log_items_def get_log_items_def)
  from m v ne g p g0 p0 show ?thesis by blast
qed


theorem query_mutates_filter_witness:
  "(3::nat) < length (dicts query_heap) \<and> refs_allocated query_heap
   \<and> map_of (dicts (fst (get_log_items_as_entries plain_dateutils query_now query_collection
                            (Some 3) 1 query_heap)) ! 3)
       = (map_of (dicts query_heap ! 3))(TIMESTAMP_ID \<mapsto> PRef 4)
   \<and> dicts (fst (get_log_items_as_entries plain_dateutils query_now query_collection
                            (Some 3) 1 query_heap)) ! 3 \<noteq> [(''type'', PStr ''X'')]
   \<and> get_log_items_as_entries_default < length (dicts module_heap) \<and> refs_allocated module_heap
   \<and> dicts (fst (get_log_items_as_entries plain_dateutils query_now query_collection
                            None 1 module_heap)) ! get_log_items_as_entries_default
       \<noteq> dicts module_heap ! get_log_items_as_entries_default"
proof -
  have a: "(3::nat) < length (dicts query_heap)" by (simp add: query_heap_def)
  have b: "refs_allocated query_heap" by (simp add: query_heap_def refs_allocated_def)
  have c: "(3::nat) = (case Some 3 of None \<Rightarrow> get_log_items_as_entries_default | Some x \<Rightarrow> x)"
    by simp
  have d: "length (dicts query_heap) = 4" "dicts query_heap ! 3 = [(''type'', PStr ''X'')]"
    by (simp_all add: query_heap_def)
  have a': "get_log_items_as_entries_default < length (dicts module_heap)"
    by (simp add: module_heap_def get_log_items_as_entries_default_def)
  have b': "refs_allocated module_heap" by (simp add: module_heap_def refs_allocated_def)
  have c': "get_log_items_as_entries_default
            = (case None of None \<Rightarrow> get_log_items_as_entries_default | Some x \<Rightarrow> x)"
    by simp
  from query_mutates_filter[OF a b c refl, of plain_dateutils query_now query_collection 1]
    query_mutates_filter[OF a' b' c' refl, of plain_dateutils query_now query_collection 1]
    a b d a' b'
  show ?thesis by simp
qed

lemma list_all_keys:
  "list_all P (map fst F) \<longleftrightarrow> (\<forall>k v. map_of F k = Some v \<longrightarrow> P k)"
proof
  assume l: "list_all P (map fst F)"
  show "\<forall>k v. map_of F k = Some v \<longrightarrow> P k"
  proof (intro allI impI)
    fix k v assume "map_of F k = Some v"
    then have "(k, v) \<in> set F" by (rule map_of_SomeD)
    then have "k \<in> set (map fst F)" by force
    with l show "P k" by (auto simp: list_all_iff)
  qed
next
  assume r: "\<forall>k v. map_of F k = Some v \<longrightarrow> P k"
  have "P k" if "k \<in> set (map fst F)" for k
  proof -
    from that have "map_of F k \<noteq> None" by (simp add: map_of_eq_None_iff)
    then obtain v where "map_of F k = Some v" by blast
    with r show ?thesis by blast
  qed
  then show "list_all P (map fst F)" by (simp add: list_all_iff)
qed

lemma matches_filter_iff:
  "matches_filter flt doc \<longleftrightarrow>
     (\<forall>k cond. map_of flt k = Some cond \<longrightarrow> matches_cond (map_of doc k) cond)"
  unfolding matches_filter_def list_all_keys by (auto split: option.splits)

lemma query_selects_iff:
  "query_selects F c doc \<longleftrightarrow>
     (\<exists>x. map_of doc TIMESTAMP_ID = Some (PInt x) \<and> c < x)
     \<and> (\<forall>k v. k \<noteq> TIMESTAMP_ID \<and> map_of F k = Some v \<longrightarrow> map_of doc k = Some v)"
proof -
  have "(case map_of doc TIMESTAMP_ID of Some (PInt x) \<Rightarrow> c < x | _ \<Rightarrow> False)
        \<longleftrightarrow> (\<exists>x. map_of doc TIMESTAMP_ID = Some (PInt x) \<and> c < x)"
    by (simp split: option.splits pyval.splits)
  moreover have "list_all (\<lambda>k. k = TIMESTAMP_ID \<or> map_of doc k = map_of F k) (map fst F)
        \<longleftrightarrow> (\<forall>k v. k \<noteq> TIMESTAMP_ID \<and> map_of F k = Some v \<longrightarrow> map_of doc k = Some v)"
    unfolding list_all_keys by auto
  ultimately show ?thesis by (simp only: query_selects_def)
qed

lemma plain_values_lookup:
  assumes "plain_values F" "map_of F k = Some v" "k \<noteq> TIMESTAMP_ID"
  shows "deref h v = v \<and> matches_cond w v = (w = Some v)"
proof -
  from assms(2) have "(k, v) \<in> set F" by (rule map_of_SomeD)
  with assms(1,3) have "case v of PInt n \<Rightarrow> True | PStr s \<Rightarrow> True | _ \<Rightarrow> False"
    by (auto simp: plain_values_def list_all_iff)
  then show ?thesis by (cases v) (simp_all add: deref_def)
qed

lemma sent_filter_selects:
  assumes "a < length (dicts h)" and "plain_values (dicts h ! a)"
  shows "matches_filter (dict_by_value (fst (get_log_items_as_entries du now mongo (Some a) days h)) a) doc
         \<longleftrightarrow> query_selects (dicts h ! a) (datetime_to_long du (now - timedelta_days days)) doc"
proof -
  let ?c = "datetime_to_long du (now - timedelta_days days)"
  let ?p = "[(''$gt'', PInt ?c)]"
  let ?n = "length (dicts h)"
  let ?F = "dicts h ! a"
  define h' where "h' = fst (get_log_items_as_entries du now mongo (Some a) days h)"
  have h': "h' = h\<lparr>dicts := (dicts h)[a := AList.update TIMESTAMP_ID (PRef ?n) ?F] @ [?p]\<rparr>"
    unfolding h'_def by (rule get_log_items_as_entries_heap[OF assms(1)])
  have d: "dicts h' ! a = AList.update TIMESTAMP_ID (PRef ?n) ?F"
    using assms(1) by (simp add: h' nth_append)
  have n: "dicts h' ! ?n = ?p" by (simp add: h' nth_append)
  have look: "map_of (dict_by_value h' a) k =
              (if k = TIMESTAMP_ID then Some (PDict ?p) else map_option (deref h') (map_of ?F k))" for k
  proof -
    have "deref h' (PRef ?n) = PDict ?p" by (simp add: deref_def n)
    then show ?thesis by (simp add: dict_by_value_def map_of_map d update_conv')
  qed
  have ts: "matches_cond w (PDict ?p) \<longleftrightarrow> (\<exists>x. w = Some (PInt x) \<and> ?c < x)" for w
    by (auto split: option.splits pyval.splits)
  have "matches_filter (dict_by_value h' a) doc \<longleftrightarrow>
          (\<exists>x. map_of doc TIMESTAMP_ID = Some (PInt x) \<and> ?c < x)
          \<and> (\<forall>k v. k \<noteq> TIMESTAMP_ID \<and> map_of ?F k = Some v \<longrightarrow> map_of doc k = Some v)"
  proof
    assume m: "matches_filter (dict_by_value h' a) doc"
    then have all: "\<And>k cond. map_of (dict_by_value h' a) k = Some cond \<Longrightarrow> matches_cond (map_of doc k) cond"
      by (simp add: matches_filter_iff)
    have "matches_cond (map_of doc TIMESTAMP_ID) (PDict ?p)"
      by (rule all) (simp add: look)
    then have 1: "\<exists>x. map_of doc TIMESTAMP_ID = Some (PInt x) \<and> ?c < x" by (simp only: ts)
    have 2: "map_of doc k = Some v" if "k \<noteq> TIMESTAMP_ID" "map_of ?F k = Some v" for k v
    proof -
      from plain_values_lookup[OF assms(2) that(2,1)]
      have pv: "deref h' v = v" "matches_cond (map_of doc k) v = (map_of doc k = Some v)" by auto
      have "map_of (dict_by_value h' a) k = Some v" using that pv(1) by (simp add: look)
      from all[OF this] pv(2) show ?thesis by simp
    qed
    from 1 2 show "(\<exists>x. map_of doc TIMESTAMP_ID = Some (PInt x) \<and> ?c < x)
          \<and> (\<forall>k v. k \<noteq> TIMESTAMP_ID \<and> map_of ?F k = Some v \<longrightarrow> map_of doc k = Some v)" by blast
  next
    assume r: "(\<exists>x. map_of doc TIMESTAMP_ID = Some (PInt x) \<and> ?c < x)
          \<and> (\<forall>k v. k \<noteq> TIMESTAMP_ID \<and> map_of ?F k = Some v \<longrightarrow> map_of doc k = Some v)"
    have "matches_cond (map_of doc k) cond" if l: "map_of (dict_by_value h' a) k = Some cond" for k cond
    proof (cases "k = TIMESTAMP_ID")
      case True
      with l have "cond = PDict ?p" by (simp add: look)
      with r True show ?thesis by (simp only: ts)
    next
      case False
      with l obtain v where v: "map_of ?F k = Some v" "cond = deref h' v"
        by (auto simp: look)
      from plain_values_lookup[OF assms(2) v(1) False]
      have pv: "deref h' v = v" "matches_cond (map_of doc k) v = (map_of doc k = Some v)" by auto
      from r False v(1) have "map_of doc k = Some v" by blast
      with pv v(2) show ?thesis by simp
    qed
    then show "matches_filter (dict_by_value h' a) doc" by (simp add: matches_filter_iff)
  qed
  then show ?thesis unfolding h'_def by (simp only: query_selects_iff)
qed

lemma sort_key_short: "length xs \<le> 1 \<Longrightarrow> sort_key f xs = xs"
  by (cases xs) (auto simp: Suc_le_eq)

text \<open>
  C6 (as the code has it). Let \<open>F\<close> be an attribute filter whose fields other than
  \<open>_Timestamp\<close> hold strings or numbers; \<open>F\<close> may be a filter that an earlier query has
  used and that holds a \<open>_Timestamp\<close> item already, or the shared default. For a
  lookback of \<open>days\<close>, the query reads exactly the stored documents that
  \<open>query_selects\<close> describes: every field of \<open>F\<close> other than \<open>_Timestamp\<close> has the
  value \<open>F\<close> gives it, and \<open>_Timestamp\<close> is strictly above the long form of
  \<open>now - days\<close>. When these documents deserialize to entries with integer ids, the call
  returns them sorted ascending by id (a stable sort, a permutation of what was read).
\<close>

theorem query_result_sorted_by_id:
  assumes "a < length (dicts h)" and "plain_values (dicts h ! a)"
    and "map_result (log_entry_from_dict du now)
           (filter (query_selects (dicts h ! a) (datetime_to_long du (now - timedelta_days days)))
                   (docs mongo)) = Inr es"
    and "list_all is_int_id es"
  shows "snd (get_log_items_as_entries du now mongo (Some a) days h) = Inr (sort_key int_id es)
       \<and> sorted (map int_id (sort_key int_id es))
       \<and> mset (sort_key int_id es) = mset es"
proof -
  have "find_docs (dict_by_value (fst (get_log_items_as_entries du now mongo (Some a) days h)) a) mongo
        = filter (query_selects (dicts h ! a) (datetime_to_long du (now - timedelta_days days))) (docs mongo)"
    unfolding find_docs_def using sent_filter_selects[OF assms(1,2)] by (intro filter_cong refl) blast
  with assms(3) have "snd (get_log_items_as_entries du now mongo (Some a) days h) = sort_by_log_id es"
    by (simp add: get_log_items_as_entries_result)
  moreover have "sort_by_log_id es = Inr (sort_key int_id es)"
    using assms(4) by (simp add: sort_by_log_id_def sort_key_short)
  ultimately show ?thesis by simp
qed

lemma keys_distinct:
  "MONGO_ID_KEY \<noteq> TIMESTAMP_ID" "MONGO_ID_KEY \<noteq> LEVEL_ID" "MONGO_ID_KEY \<noteq> TEXT_ID"
  "MONGO_ID_KEY \<noteq> LOG_RECORD_ID" "TIMESTAMP_ID \<noteq> LEVEL_ID" "TIMESTAMP_ID \<noteq> TEXT_ID"
  "TIMESTAMP_ID \<noteq> LOG_RECORD_ID" "LEVEL_ID \<noteq> TEXT_ID" "LEVEL_ID \<noteq> LOG_RECORD_ID"
  "TEXT_ID \<noteq> LOG_RECORD_ID"
  by (simp_all add: key_defs)

lemma pop_Some: "map_of d k = Some v \<Longrightarrow> pop k d = Inr (v, AList.delete k d)"
  by (simp add: pop_def)

lemma pop_None: "map_of d k = None \<Longrightarrow> pop k d = Inl (KeyError k)"
  by (simp add: pop_def)

lemma first_missing_KeyError:
  assumes "first_missing d = Some k"
  shows "log_entry_from_dict du now d = Inl (KeyError k)"
proof -
  note kd = keys_distinct keys_distinct[symmetric]
  consider
      (1) "map_of d MONGO_ID_KEY = None" "k = MONGO_ID_KEY"
    | (2) a where "map_of d MONGO_ID_KEY = Some a" "map_of d TIMESTAMP_ID = None" "k = TIMESTAMP_ID"
    | (3) a b where "map_of d MONGO_ID_KEY = Some a" "map_of d TIMESTAMP_ID = Some b"
        "map_of d LEVEL_ID = None" "k = LEVEL_ID"
    | (4) a b c where "map_of d MONGO_ID_KEY = Some a" "map_of d TIMESTAMP_ID = Some b"
        "map_of d LEVEL_ID = Some c" "map_of d TEXT_ID = None" "k = TEXT_ID"
    | (5) a b c e where "map_of d MONGO_ID_KEY = Some a" "map_of d TIMESTAMP_ID = Some b"
        "map_of d LEVEL_ID = Some c" "map_of d TEXT_ID = Some e" "map_of d LOG_RECORD_ID = None"
        "k = LOG_RECORD_ID"
    using assms unfolding first_missing_def
    by (cases "map_of d MONGO_ID_KEY"; cases "map_of d TIMESTAMP_ID"; cases "map_of d LEVEL_ID";
        cases "map_of d TEXT_ID"; cases "map_of d LOG_RECORD_ID") simp_all
  then show ?thesis
  proof cases
    case 1
    then show ?thesis by (simp add: log_entry_from_dict_def Let_def pop_None)
  next
    case 2
    let ?d1 = "AList.delete MONGO_ID_KEY d"
    have "map_of ?d1 TIMESTAMP_ID = None" using 2 kd by (simp add: delete_conv')
    with 2 show ?thesis by (simp add: log_entry_from_dict_def Let_def pop_Some pop_None)
  next
    case 3
    let ?d1 = "AList.delete MONGO_ID_KEY d"
    let ?d2 = "AList.delete TIMESTAMP_ID ?d1"
    have "map_of ?d1 TIMESTAMP_ID = Some b" "map_of ?d2 LEVEL_ID = None"
      using 3 kd by (simp_all add: delete_conv')
    with 3 show ?thesis by (simp add: log_entry_from_dict_def Let_def pop_Some pop_None)
  next
    case 4
    let ?d1 = "AList.delete MONGO_ID_KEY d"
    let ?d2 = "AList.delete TIMESTAMP_ID ?d1"
    let ?d3 = "AList.delete LEVEL_ID ?d2"
    have "map_of ?d1 TIMESTAMP_ID = Some b" "map_of ?d2 LEVEL_ID = Some c" "map_of ?d3 TEXT_ID = None"
      using 4 kd by (simp_all add: delete_conv')
    with 4 show ?thesis by (simp add: log_entry_from_dict_def Let_def pop_Some pop_None)
  next
    case 5
    let ?d1 = "AList.delete MONGO_ID_KEY d"
    let ?d2 = "AList.delete TIMESTAMP_ID ?d1"
    let ?d3 = "AList.delete LEVEL_ID ?d2"
    let ?d4 = "AList.delete TEXT_ID ?d3"
    have "map_of ?d1 TIMESTAMP_ID = Some b" "map_of ?d2 LEVEL_ID = Some c" "map_of ?d3 TEXT_ID = Some e"
      "map_of ?d4 LOG_RECORD_ID = None"
      using 5 kd by (simp_all add: delete_conv')
    with 5 show ?thesis by (simp add: log_entry_from_dict_def Let_def pop_Some pop_None)
  qed
qed

lemma map_result_stops:
  "map_result f pre = Inr es \<Longrightarrow> f bad = Inl e \<Longrightarrow> map_result f (pre @ bad # post) = Inl e"
  by (induction pre arbitrary: es) (auto split: sum.splits)

text \<open>
  C2 (as the code has it). When the store hands back a batch in which the mappings
  before \<open>bad\<close> deserialize and \<open>bad\<close> lacks a reserved field, the call raises
  \<open>KeyError\<close> for the first field that \<open>bad\<close> lacks: it returns no record, whatever
  the rest of the batch holds.
\<close>

theorem corrupt_record_aborts_query:
  assumes "find_docs (dict_by_value (fst (get_log_items_as_entries du now mongo (Some a) days h)) a) mongo
             = pre @ bad # post"
    and "map_result (log_entry_from_dict du now) pre = Inr es"
    and "first_missing bad = Some k"
  shows "snd (get_log_items_as_entries du now mongo (Some a) days h) = Inl (KeyError k)"
proof -
  from map_result_stops[OF assms(2) first_missing_KeyError[OF assms(3)], of post]
  have "map_result (log_entry_from_dict du now) (pre @ bad # post) = Inl (KeyError k)" .
  with assms(1) show ?thesis by (simp add: get_log_items_as_entries_result)
qed


theorem query_result_sorted_by_id_witness:
  "(3::nat) < length (dicts query_heap) \<and> plain_values (dicts query_heap ! 3)
   \<and> map_result (log_entry_from_dict plain_dateutils query_now)
         (filter (query_selects (dicts query_heap ! 3)
                    (datetime_to_long plain_dateutils (query_now - timedelta_days 1)))
                 (docs query_collection)) = Inr [entry_b, entry_a]
   \<and> list_all is_int_id [entry_b, entry_a]
   \<and> snd (get_log_items_as_entries plain_dateutils query_now query_collection (Some 3) 1 query_heap)
       = Inr [entry_a, entry_b]
   \<and> fst (get_log_items_as_entries plain_dateutils query_now query_collection (Some 3) 1 query_heap)
       = used_query_heap
   \<and> plain_values (dicts used_query_heap ! 3)
   \<and> snd (get_log_items_as_entries plain_dateutils query_now query_collection (Some 3) 1
             used_query_heap)
       = Inr [entry_a, entry_b]"
proof -
  have a: "(3::nat) < length (dicts query_heap)" by (simp add: query_heap_def)
  have b: "plain_values (dicts query_heap ! 3)" by (simp add: query_heap_def plain_values_def)
  have c: "map_result (log_entry_from_dict plain_dateutils query_now)
         (filter (query_selects (dicts query_heap ! 3)
                    (datetime_to_long plain_dateutils (query_now - timedelta_days 1)))
                 (docs query_collection)) = Inr [entry_b, entry_a]"
    by code_simp
  have d: "list_all is_int_id [entry_b, entry_a]" by code_simp
  have e: "sort_key int_id [entry_b, entry_a] = [entry_a, entry_b]" by code_simp
  have u: "fst (get_log_items_as_entries plain_dateutils query_now query_collection (Some 3) 1
                  query_heap) = used_query_heap"
    by code_simp
  have a': "(3::nat) < length (dicts used_query_heap)" by (simp add: used_query_heap_def)
  have b': "plain_values (dicts used_query_heap ! 3)"
    by (simp add: used_query_heap_def plain_values_def TIMESTAMP_ID_def)
  have c': "map_result (log_entry_from_dict plain_dateutils query_now)
         (filter (query_selects (dicts used_query_heap ! 3)
                    (datetime_to_long plain_dateutils (query_now - timedelta_days 1)))
                 (docs query_collection)) = Inr [entry_b, entry_a]"
    by code_simp
  from query_result_sorted_by_id[OF a b c d] query_result_sorted_by_id[OF a' b' c' d]
    a b c d e u b'
  show ?thesis by simp
qed

text \<open>
  The claim as stated fails at the cutoff: the record with id 3 is of type X and its
  timestamp is exactly \<open>now\<close> minus one day, and the query for \<open>{"type": "X"}\<close> with one
  day of lookback does not return it (\<open>$gt\<close> is a strict comparison).
\<close>

theorem query_cutoff_counterexample:
  "datetime_to_long plain_dateutils (query_now - timedelta_days 1) = 1000
   \<and> log_entry_from_dict plain_dateutils query_now (docs query_collection ! 4) = Inr entry_d
   \<and> entry_timestamp entry_d = query_now - timedelta_days 1
   \<and> map_of (entry_use_attributes entry_d) ''type'' = Some (PStr ''X'')
   \<and> snd (get_log_items_as_entries plain_dateutils query_now query_collection (Some 3) 1 query_heap)
       = Inr [entry_a, entry_b]
   \<and> entry_d \<notin> set [entry_a, entry_b]"
  by code_simp

theorem corrupt_record_aborts_query_witness:
  "find_docs (dict_by_value (fst (get_log_items_as_entries plain_dateutils query_now
                 corrupt_collection (Some 3) 1 query_heap)) 3) corrupt_collection
     = [docs corrupt_collection ! 0] @ (docs corrupt_collection ! 1) # [docs corrupt_collection ! 2]
   \<and> map_result (log_entry_from_dict plain_dateutils query_now) [docs corrupt_collection ! 0]
       = Inr [entry_a]
   \<and> first_missing (docs corrupt_collection ! 1) = Some TEXT_ID
   \<and> snd (get_log_items_as_entries plain_dateutils query_now corrupt_collection (Some 3) 1 query_heap)
       = Inl (KeyError TEXT_ID)"
proof -
  have a: "find_docs (dict_by_value (fst (get_log_items_as_entries plain_dateutils query_now
                 corrupt_collection (Some 3) 1 query_heap)) 3) corrupt_collection
     = [docs corrupt_collection ! 0] @ (docs corrupt_collection ! 1) # [docs corrupt_collection ! 2]"
    by code_simp
  have b: "map_result (log_entry_from_dict plain_dateutils query_now) [docs corrupt_collection ! 0]
       = Inr [entry_a]"
    by code_simp
  have c: "first_missing (docs corrupt_collection ! 1) = Some TEXT_ID" by code_simp
  from corrupt_record_aborts_query[OF a b c] a b c show ?thesis by simp
qed

text \<open>
  The claim as stated fails: the store holds three records of type X inside the
  lookback, the second has lost its \<open>_Text\<close> field and the other two deserialize; the
  query raises \<open>KeyError\<close> and the two valid records are not returned.
\<close>

theorem corrupt_record_counterexample:
  "find_docs (dict_by_value (fst (get_log_items_as_entries plain_dateutils query_now
                 corrupt_collection (Some 3) 1 query_heap)) 3) corrupt_collection
     = docs corrupt_collection
   \<and> \<not> isl (log_entry_from_dict plain_dateutils query_now (docs corrupt_collection ! 0))
   \<and> log_entry_from_dict plain_dateutils query_now (docs corrupt_collection ! 1)
       = Inl (KeyError ''_Text'')
   \<and> \<not> isl (log_entry_from_dict plain_dateutils query_now (docs corrupt_collection ! 2))
   \<and> snd (get_log_items_as_entries plain_dateutils query_now corrupt_collection (Some 3) 1 query_heap)
       = Inl (KeyError ''_Text'')"
  by code_simp

section \<open>Theorems: the durable sink\<close>

lemma get_last_used_counter:
  "get_last_used_log_id s = Inr (PInt i) \<longleftrightarrow> counter_is i (docs s)"
  by (auto simp: get_last_used_log_id_def counter_is_def find_one_def Let_def split: option.splits)

lemma find_append_found: "List.find P xs = Some d \<Longrightarrow> List.find P (xs @ ys) = Some d"
  by (induction xs) (auto split: if_splits)

lemma counter_is_append: "counter_is i xs \<Longrightarrow> counter_is i (xs @ ys)"
  by (auto simp: counter_is_def find_append_found split: option.splits)

lemma replace_first_append:
  "replace_first P new xs = Some xs' \<Longrightarrow>
   replace_first P new (xs @ ys) = Some (xs' @ ys) \<and> length xs' = length xs"
  by (induction xs arbitrary: xs') (auto split: if_splits option.splits)

lemma replace_first_found:
  "List.find P xs = Some d \<Longrightarrow> \<exists>xs'. replace_first P new xs = Some xs'"
  by (induction xs) (auto split: if_splits)

lemma update_log_id_docs_append:
  assumes "counter_is i xs" and "docs s = xs @ ys"
  shows "\<exists>c. docs (update_log_id k s) = c @ ys \<and> length c = length xs"
proof -
  let ?F = "[(''_meta_data'', PStr ''log_id'')]"
  let ?new = "[(''_meta_data'', PStr ''log_id''), (''next_id'', PInt k)]"
  from assms(1) obtain d where "List.find (matches_filter ?F) xs = Some d"
    by (auto simp: counter_is_def split: option.splits)
  from replace_first_found[OF this] obtain xs' where
    "replace_first (matches_filter ?F) ?new xs = Some xs'" by blast
  from replace_first_append[OF this, of ys]
  have "replace_first (matches_filter ?F) ?new (xs @ ys) = Some (xs' @ ys)" "length xs' = length xs"
    by simp_all
  then show ?thesis using assms(2)
    by (simp add: update_log_id_unfold replace_one_def)
qed

lemma get_next_log_id_Inr:
  assumes "get_next_log_id s = Inr (i, s1)"
  shows "s1 = update_log_id i s"
  using assms
  by (auto simp: get_next_log_id_def Let_def split: sum.splits pyval.splits if_splits)

lemma sink_frame_insert_one [simp]:
  "console (insert_one d s) = console s" "mail_attempts (insert_one d s) = mail_attempts s"
  "ticks (insert_one d s) = ticks s" "objects (insert_one d s) = objects s"
  by (simp_all add: insert_one_def split: option.splits)

lemma sink_frame_update_log_id [simp]:
  "console (update_log_id k s) = console s" "mail_attempts (update_log_id k s) = mail_attempts s"
  "ticks (update_log_id k s) = ticks s" "objects (update_log_id k s) = objects s"
  by (simp_all add: update_log_id_unfold replace_one_def insert_one_def split: option.splits)

lemma insert_one_docs:
  "\<exists>d. docs (insert_one x s) = docs s @ [d]
       \<and> (\<forall>k. k \<noteq> MONGO_ID_KEY \<longrightarrow> map_of d k = map_of x k)"
  by (auto simp: insert_one_def update_conv' split: option.splits)

lemma in_levels_simps:
  "in_levels (PInt 4) EMAIL_ON_LOG_LEVEL" "\<not> in_levels (PInt 3) EMAIL_ON_LOG_LEVEL"
  by (simp_all add: in_levels_def EMAIL_ON_LOG_LEVEL_def)

lemma log_handle_caller_plain:
  assumes "\<not> in_levels msglevel EMAIL_ON_LOG_LEVEL"
    and "logEntry_init (env_dateutils env) (clock env (ticks s)) text None msglevel
           (dicts (objects s) ! a) lid = Inr e"
  shows "logToMongod_log_handle_caller env self msglevel text a lid s =
           Inr (e, insert_one (log_dict e) (s\<lparr>ticks := Suc (ticks s), console := console s @ [e]\<rparr>))"
  using assms by (simp add: Let_def)


lemma logEntry_init_fields:
  assumes "0 \<le> n" "n \<le> 4"
  shows "\<exists>e. logEntry_init du now text None (PInt n) attrs lid = Inr e
            \<and> entry_msglevel e = PInt n \<and> entry_text e = text \<and> entry_log_id e = lid
            \<and> map_of (log_dict e) LEVEL_ID = Some (PInt n)
            \<and> map_of (log_dict e) TEXT_ID = Some text
            \<and> map_of (log_dict e) LOG_RECORD_ID = Some lid"
proof -
  from logEntry_init_succeeds[OF assms] obtain e where
    e: "logEntry_init du now text None (PInt n) attrs lid = Inr e" by blast
  note kd = keys_distinct keys_distinct[symmetric]
  from logEntry_init_Inr[OF e] kd show ?thesis
    by (auto simp: e log_dict_def update_conv')
qed

text \<open>
  C5. A critical emission (\<open>critical(text, **kwargs)\<close>) through \<open>logToMongod\<close> whose id is
  issued, with a transport that raises on every call: the call returns the critical
  entry and raises nothing; the transport was called once, for the critical entry, and
  not for the failure report; the store holds, after the documents it held, the critical
  record (level 4) and then one more record at level 3, which is not in
  \<open>EMAIL_ON_LOG_LEVEL\<close>; the console shows the two entries in that order.
\<close>

theorem critical_escalation_failure:
  assumes fail: "\<forall>e subject. \<not> send_mail_msg env e subject"
    and id: "get_next_log_id s = Inr (i, s1)"
  shows "\<exists>crit err s' c d1 d2.
       logToMongod_critical env self text kwargs s = Inr (crit, s')
     \<and> entry_msglevel crit = PInt 4 \<and> entry_text crit = text \<and> entry_log_id crit = PInt i
     \<and> mail_attempts s' = mail_attempts s @ [(crit, ''*CRITICAL ERROR*'')]
     \<and> console s' = console s @ [crit, err]
     \<and> entry_msglevel err = PInt 3 \<and> \<not> in_levels (entry_msglevel err) EMAIL_ON_LOG_LEVEL
     \<and> entry_log_id err = PInt (i + 1)
     \<and> docs s' = c @ [d1, d2] \<and> length c = length (docs s1)
     \<and> map_of d1 LEVEL_ID = Some (PInt 4) \<and> map_of d1 TEXT_ID = Some text
     \<and> map_of d1 LOG_RECORD_ID = Some (PInt i)
     \<and> map_of d2 LEVEL_ID = Some (PInt 3) \<and> map_of d2 LOG_RECORD_ID = Some (PInt (i + 1))"
proof -
  note kd = keys_distinct keys_distinct[symmetric]
  let ?T3 = "PStr (''Couldn'' @ [CHR 0x27] @ ''t email user'')"
  let ?du = "env_dateutils env"
  have s1: "s1 = update_log_id i s" using id by (rule get_next_log_id_Inr)
  have c1: "counter_is i (docs s1)"
    unfolding s1 using get_last_used_after_update[of i s] by (simp only: get_last_used_counter)
  \<comment> \<open>the critical record\<close>
  obtain m1 where m1: "get_update_attributes_list (attributes (loggers (objects s) ! self)) kwargs (objects s1)
        = (length (dicts (objects s1)), (objects s1)\<lparr>dicts := dicts (objects s1) @ [m1]\<rparr>)"
    using get_update_attributes_list_shape by blast
  define a1 where "a1 = length (dicts (objects s1))"
  define s2 where "s2 = s1\<lparr>objects := (objects s1)\<lparr>dicts := dicts (objects s1) @ [m1]\<rparr>\<rparr>"
  obtain crit where crit: "logEntry_init ?du (clock env (ticks s2)) text None (PInt 4)
        (dicts (objects s2) ! a1) (PInt i) = Inr crit"
    and critf: "entry_msglevel crit = PInt 4" "entry_text crit = text" "entry_log_id crit = PInt i"
      "map_of (log_dict crit) LEVEL_ID = Some (PInt 4)" "map_of (log_dict crit) TEXT_ID = Some text"
      "map_of (log_dict crit) LOG_RECORD_ID = Some (PInt i)"
    using logEntry_init_fields[of 4 ?du "clock env (ticks s2)" "text" "dicts (objects s2) ! a1" "PInt i"]
    by auto
  define s3 where "s3 = s2\<lparr>ticks := Suc (ticks s2), console := console s2 @ [crit]\<rparr>"
  define s4 where "s4 = insert_one (log_dict crit) s3"
  define s5 where "s5 = s4\<lparr>mail_attempts := mail_attempts s4 @ [(crit, ''*CRITICAL ERROR*'')]\<rparr>"
  have docs3: "docs s3 = docs s1" by (simp add: s3_def s2_def)
  obtain d1 where d1: "docs s4 = docs s1 @ [d1]"
    and d1f: "\<forall>k. k \<noteq> MONGO_ID_KEY \<longrightarrow> map_of d1 k = map_of (log_dict crit) k"
    using insert_one_docs[of "log_dict crit" s3] by (auto simp: s4_def docs3)
  have docs5: "docs s5 = docs s1 @ [d1]" by (simp add: s5_def d1)
  \<comment> \<open>the failure report\<close>
  have "counter_is i (docs s5)" unfolding docs5 using c1 by (rule counter_is_append)
  then have "get_last_used_log_id s5 = Inr (PInt i)" by (simp only: get_last_used_counter)
  then have g5: "get_next_log_id s5 = Inr (i + 1, update_log_id (i + 1) s5)"
    by (rule get_next_log_id_after)
  define s6 where "s6 = update_log_id (i + 1) s5"
  obtain c where c: "docs s6 = c @ [d1]" "length c = length (docs s1)"
    using update_log_id_docs_append[OF c1 docs5, of "i + 1"] by (auto simp: s6_def)
  obtain m2 where m2: "get_update_attributes_list (attributes (loggers (objects s5) ! self)) [] (objects s6)
        = (length (dicts (objects s6)), (objects s6)\<lparr>dicts := dicts (objects s6) @ [m2]\<rparr>)"
    using get_update_attributes_list_shape by blast
  define a2 where "a2 = length (dicts (objects s6))"
  define s7 where "s7 = s6\<lparr>objects := (objects s6)\<lparr>dicts := dicts (objects s6) @ [m2]\<rparr>\<rparr>"
  obtain err where err: "logEntry_init ?du (clock env (ticks s7)) ?T3 None (PInt 3)
        (dicts (objects s7) ! a2) (PInt (i + 1)) = Inr err"
    and errf: "entry_msglevel err = PInt 3" "entry_log_id err = PInt (i + 1)"
      "map_of (log_dict err) LEVEL_ID = Some (PInt 3)"
      "map_of (log_dict err) LOG_RECORD_ID = Some (PInt (i + 1))"
    using logEntry_init_fields[of 3 ?du "clock env (ticks s7)" ?T3 "dicts (objects s7) ! a2" "PInt (i + 1)"]
    by auto
  define s8 where "s8 = s7\<lparr>ticks := Suc (ticks s7), console := console s7 @ [err]\<rparr>"
  define s9 where "s9 = insert_one (log_dict err) s8"
  have docs8: "docs s8 = c @ [d1]" by (simp add: s8_def s7_def c)
  obtain d2 where d2: "docs s9 = c @ [d1, d2]"
    and d2f: "\<forall>k. k \<noteq> MONGO_ID_KEY \<longrightarrow> map_of d2 k = map_of (log_dict err) k"
    using insert_one_docs[of "log_dict err" s8] by (auto simp: s9_def docs8)
  have lhc3: "logToMongod_log_handle_caller env self (PInt 3) ?T3 a2 (PInt (i + 1)) s7 = Inr (err, s9)"
    unfolding s9_def s8_def
    by (rule log_handle_caller_plain[OF in_levels_simps(2) err])
  have log3: "logToMongod_log env self ?T3 (PInt 3) [] s5 = Inr (err, s9)"
    using g5 m2 lhc3
    by (simp add: s6_def[symmetric] a2_def[symmetric] s7_def[symmetric]
             del: logToMongod_log_handle_caller.simps)
  have mail: "logToMongod_email_user env self crit s4 = Inr s9"
    using fail log3
    by (simp add: s5_def[symmetric] Let_def del: logToMongod_log.simps)
  have lhc4: "logToMongod_log_handle_caller env self (PInt 4) text a1 (PInt i) s2 = Inr (crit, s9)"
    using crit mail in_levels_simps(1)
    by (simp add: Let_def s3_def[symmetric] s4_def[symmetric] del: logToMongod_email_user.simps)
  have "objects s1 = objects s" by (simp add: s1)
  then have log4: "logToMongod_log env self text (PInt 4) kwargs s = Inr (crit, s9)"
    using id m1 lhc4[unfolded a1_def s2_def]
    by (simp del: logToMongod_log_handle_caller.simps)
  have mails: "mail_attempts s9 = mail_attempts s @ [(crit, ''*CRITICAL ERROR*'')]"
    by (simp add: s9_def s8_def s7_def s6_def s5_def s4_def s3_def s2_def s1)
  have cons: "console s9 = console s @ [crit, err]"
    by (simp add: s9_def s8_def s7_def s6_def s5_def s4_def s3_def s2_def s1)
  have f1: "map_of d1 LEVEL_ID = Some (PInt 4)" "map_of d1 TEXT_ID = Some text"
    "map_of d1 LOG_RECORD_ID = Some (PInt i)"
    using d1f critf kd by simp_all
  have f2: "map_of d2 LEVEL_ID = Some (PInt 3)" "map_of d2 LOG_RECORD_ID = Some (PInt (i + 1))"
    using d2f errf kd by simp_all
  have ne: "\<not> in_levels (entry_msglevel err) EMAIL_ON_LOG_LEVEL"
    by (simp add: errf in_levels_simps)
  from log4 critf(1-3) mails cons errf(1,2) ne d2 c(2) f1 f2 show ?thesis
    unfolding logToMongod_critical_def by blast
qed

theorem critical_escalation_failure_witness:
  "(\<forall>e subject. \<not> send_mail_msg failing_env e subject)
   \<and> get_next_log_id example_sink = Inr (0, update_log_id 0 example_sink)
   \<and> (\<exists>crit err s' c d1 d2.
         logToMongod_critical failing_env 0 (PStr ''disk failure'') [] example_sink = Inr (crit, s')
       \<and> entry_msglevel crit = PInt 4
       \<and> mail_attempts s' = [(crit, ''*CRITICAL ERROR*'')]
       \<and> console s' = [crit, err]
       \<and> entry_msglevel err = PInt 3
       \<and> docs s' = c @ [d1, d2]
       \<and> map_of d1 LEVEL_ID = Some (PInt 4)
       \<and> map_of d2 LEVEL_ID = Some (PInt 3))"
proof -
  have a: "\<forall>e subject. \<not> send_mail_msg failing_env e subject"
    by (simp add: failing_env_def)
  have b: "get_next_log_id example_sink = Inr (0, update_log_id 0 example_sink)"
    by (rule get_next_log_id_fresh) (simp add: find_one_def example_sink_def)
  have c: "mail_attempts example_sink = []" "console example_sink = []"
    by (simp_all add: example_sink_def)
  from critical_escalation_failure[OF a b, of 0 "PStr ''disk failure''" "[]"]
  obtain crit err s' c d1 d2 where
    "logToMongod_critical failing_env 0 (PStr ''disk failure'') [] example_sink = Inr (crit, s')"
    "entry_msglevel crit = PInt 4"
    "mail_attempts s' = mail_attempts example_sink @ [(crit, ''*CRITICAL ERROR*'')]"
    "console s' = console example_sink @ [crit, err]"
    "entry_msglevel err = PInt 3"
    "docs s' = c @ [d1, d2]"
    "map_of d1 LEVEL_ID = Some (PInt 4)"
    "map_of d2 LEVEL_ID = Some (PInt 3)"
    by blast
  then have "\<exists>crit err s' c d1 d2.
         logToMongod_critical failing_env 0 (PStr ''disk failure'') [] example_sink = Inr (crit, s')
       \<and> entry_msglevel crit = PInt 4
       \<and> mail_attempts s' = [(crit, ''*CRITICAL ERROR*'')]
       \<and> console s' = [crit, err]
       \<and> entry_msglevel err = PInt 3
       \<and> docs s' = c @ [d1, d2]
       \<and> map_of d1 LEVEL_ID = Some (PInt 4)
       \<and> map_of d2 LEVEL_ID = Some (PInt 3)"
    unfolding c by (metis append_Nil)
  with a b show ?thesis by blast
qed

end
